theory Spec2Isabelle
  imports Complex_Main "HOL-Library.Word"
begin

section \<open>Conventions of the embedding\<close>

text \<open>
  The server is TypeScript. Its \<open>number\<close>s are modelled as follows: integer counters
  (ids, sequence numbers, ring indices, kills) are \<open>nat\<close> or \<open>int\<close>; coordinates, angles and
  clock readings are \<open>real\<close>, which idealises IEEE rounding and excludes NaN and the
  infinities. The one place where the rounding of a double is visible at the level of whole
  numbers, the product inside the map generator, is modelled exactly (\<open>fl53\<close>).
  A result object whose miss value is \<open>{hit: false, distance: Infinity}\<close> is an \<open>option\<close>,
  with \<open>None\<close> for the miss. Objects are records; a method that mutates \<open>this\<close> returns the
  updated record. \<open>Date.now()\<close> and \<open>Math.random()\<close> read from two oracles carried in a
  \<open>world\<close> record, one value per call, in call order. The position fields \<open>x, y, z\<close> of
  a player are named \<open>px, py, pz\<close>, and fields that several interfaces share are prefixed
  (\<open>i_yaw\<close> of an input, \<open>o_x\<close> of an obstacle, \<open>s_\<close> for a snapshot entry).
\<close>

section \<open>Shared constants (shared/src/types.ts, server/src/config.ts)\<close>

definition MOVE_SPEED :: real where "MOVE_SPEED = 5"
definition SPRINT_MULTIPLIER :: real where "SPRINT_MULTIPLIER = 16 / 10"
definition SNEAK_MULTIPLIER :: real where "SNEAK_MULTIPLIER = 1 / 2"
definition JUMP_FORCE :: real where "JUMP_FORCE = 8"
definition GRAVITY :: real where "GRAVITY = 20"
definition PLAYER_HEIGHT :: real where "PLAYER_HEIGHT = 18 / 10"
definition PLAYER_RADIUS :: real where "PLAYER_RADIUS = 4 / 10"
definition HEAD_HEIGHT :: real where "HEAD_HEIGHT = 3 / 10"
definition MAX_HEALTH :: int where "MAX_HEALTH = 100"
definition RESPAWN_TIME :: real where "RESPAWN_TIME = 2000"
definition MAP_SIZE :: real where "MAP_SIZE = 50"
definition OBSTACLE_COUNT :: nat where "OBSTACLE_COUNT = 40"
definition MAX_LAG_COMPENSATION :: real where "MAX_LAG_COMPENSATION = 400"
definition HISTORY_CAPACITY :: nat where "HISTORY_CAPACITY = 300"

record WeaponConfig =
  w_damage :: int
  fireRate :: real
  range :: real
  spread :: real
  bulletCount :: nat

definition WEAPONS :: "WeaponConfig list" where
  "WEAPONS =
    [\<lparr>w_damage = 25, fireRate = 400, range = 100, spread = 2 / 100, bulletCount = 1\<rparr>,
     \<lparr>w_damage = 15, fireRate = 100, range = 50, spread = 8 / 100, bulletCount = 1\<rparr>,
     \<lparr>w_damage = 35, fireRate = 150, range = 150, spread = 1 / 100, bulletCount = 1\<rparr>,
     \<lparr>w_damage = 15, fireRate = 800, range = 20, spread = 15 / 100, bulletCount = 8\<rparr>]"

text \<open>\<open>GAME_CONSTANTS.WEAPONS[i]\<close>: \<open>undefined\<close> outside the table.\<close>

definition weaponAt :: "nat \<Rightarrow> WeaponConfig option" where
  "weaponAt i = (if i < length WEAPONS then Some (WEAPONS ! i) else None)"

section \<open>Data model\<close>

record Vec3 =
  v_x :: real
  v_y :: real
  v_z :: real

record Obstacle =
  o_x :: real
  o_z :: real
  width :: real
  height :: real
  depth :: real

record InputData =
  seq :: nat
  forward :: bool
  backward :: bool
  left :: bool
  right :: bool
  jump :: bool
  sprint :: bool
  sneak :: bool
  shoot :: bool
  i_weapon :: nat
  i_yaw :: real
  i_pitch :: real
  timestamp :: real

record HitEvent =
  shooterId :: nat
  targetId :: nat
  damage :: int
  headshot :: bool

record PlayerState =
  s_id :: nat
  s_x :: real
  s_y :: real
  s_z :: real
  s_vx :: real
  s_vy :: real
  s_vz :: real
  s_yaw :: real
  s_pitch :: real
  s_health :: int
  s_weapon :: nat
  s_isShooting :: bool
  s_isDead :: bool
  s_score :: int

text \<open>
  The class \<open>Player\<close>. \<open>ws\<close> is the connection handle (a number here) or \<open>null\<close>;
  the four history arrays are typed arrays of \<open>HISTORY_CAPACITY\<close> slots.
\<close>

record Player =
  pid :: nat
  name :: "8 word list"
  ws :: "nat option"
  px :: real
  py :: real
  pz :: real
  vx :: real
  vy :: real
  vz :: real
  yaw :: real
  pitch :: real
  health :: int
  isDead :: bool
  respawnTime :: real
  score :: int
  kills :: int
  deaths :: int
  weapon :: nat
  isShooting :: bool
  lastShootTime :: real
  pendingInputs :: "InputData list"
  lastProcessedInput :: nat
  grounded :: bool
  historyX :: "real list"
  historyY :: "real list"
  historyZ :: "real list"
  historyTime :: "real list"
  historyHead :: nat
  historySize :: nat

record world =
  clock :: "nat \<Rightarrow> real"
  random :: "nat \<Rightarrow> real"

definition Date_now :: "world \<Rightarrow> real \<times> world" where
  "Date_now w = (clock w 0, w\<lparr>clock := \<lambda>n. clock w (Suc n)\<rparr>)"

definition Math_random :: "world \<Rightarrow> real \<times> world" where
  "Math_random w = (random w 0, w\<lparr>random := \<lambda>n. random w (Suc n)\<rparr>)"

section \<open>Map generator (physics.ts, generateObstacles)\<close>

text \<open>
  \<open>s * 1103515245 + 12345\<close> is a product and a sum of doubles. Both operands are whole
  numbers, so each result is the exact whole number rounded to 53 significant bits, ties
  to even; \<open>& 0x7fffffff\<close> then takes the low 31 bits of that whole number.
\<close>

fun bitlen :: "nat \<Rightarrow> nat" where
  "bitlen n = (if n = 0 then 0 else Suc (bitlen (n div 2)))"

declare bitlen.simps [simp del]

definition fl53 :: "nat \<Rightarrow> nat" where
  "fl53 n =
     (if bitlen n \<le> 53 then n
      else let e = bitlen n - 53;
               q = n div 2 ^ e;
               r = n mod 2 ^ e;
               h = 2 ^ (e - 1)
           in (if r > h \<or> (r = h \<and> odd q) then q + 1 else q) * 2 ^ e)"

definition lcg_next :: "nat \<Rightarrow> nat" where
  "lcg_next s = fl53 (fl53 (s * 1103515245) + 12345) mod 2 ^ 31"

text \<open>The closure \<open>random\<close>: advances \<open>s\<close> and returns \<open>s / 0x7fffffff\<close>.\<close>

definition lcg_random :: "nat \<Rightarrow> real \<times> nat" where
  "lcg_random s = (let s' = lcg_next s in (real s' / 2147483647, s'))"

fun gen_boxes :: "nat \<Rightarrow> nat \<Rightarrow> Obstacle list \<Rightarrow> Obstacle list \<times> nat" where
  "gen_boxes 0 s obstacles = (obstacles, s)"
| "gen_boxes (Suc k) s obstacles =
     (let (r1, s1) = lcg_random s;
          w = 1 + r1 * 4;
          (r2, s2) = lcg_random s1;
          h = 2 + r2 * 6;
          (r3, s3) = lcg_random s2;
          d = 1 + r3 * 4;
          (r4, s4) = lcg_random s3;
          x = (r4 - 1 / 2) * (MAP_SIZE - w);
          (r5, s5) = lcg_random s4;
          z = (r5 - 1 / 2) * (MAP_SIZE - d)
      in gen_boxes k s5
           (obstacles @ [\<lparr>o_x = x, o_z = z, width = w, height = h, depth = d\<rparr>]))"

definition generateObstacles :: "nat \<Rightarrow> Obstacle list" where
  "generateObstacles seed =
     (let mapSize = MAP_SIZE;
          obstacles = fst (gen_boxes OBSTACLE_COUNT seed []);
          wallThickness = 1;
          halfSize = mapSize / 2
      in obstacles @
         [\<lparr>o_x = 0, o_z = halfSize, width = mapSize, height = 5, depth = wallThickness\<rparr>,
          \<lparr>o_x = 0, o_z = - halfSize, width = mapSize, height = 5, depth = wallThickness\<rparr>,
          \<lparr>o_x = halfSize, o_z = 0, width = wallThickness, height = 5, depth = mapSize\<rparr>,
          \<lparr>o_x = - halfSize, o_z = 0, width = wallThickness, height = 5, depth = mapSize\<rparr>])"

text \<open>
  The generator as the specification words it, for comparison: the state sequence of the
  congruence \<open>(s \<times> 1103515245 + 12345) \<and> 0x7FFFFFFF\<close> over the whole numbers, box \<open>i\<close>
  built from draws \<open>5i+1 .. 5i+5\<close> in the order width, height, depth, x, z, then the
  walls north, south, east, west. \<open>spec_obstacles\<close> takes the state update as a parameter.
\<close>

definition spec_lcg_next :: "nat \<Rightarrow> nat" where
  "spec_lcg_next s = (s * 1103515245 + 12345) mod 2 ^ 31"

definition spec_draw :: "(nat \<Rightarrow> nat) \<Rightarrow> nat \<Rightarrow> nat \<Rightarrow> real" where
  "spec_draw nxt seed k = real ((nxt ^^ k) seed) / 2147483647"

definition spec_box :: "(nat \<Rightarrow> nat) \<Rightarrow> nat \<Rightarrow> nat \<Rightarrow> Obstacle" where
  "spec_box nxt seed i =
     \<lparr>o_x = (spec_draw nxt seed (5 * i + 4) - 1 / 2) * (50 - (1 + spec_draw nxt seed (5 * i + 1) * 4)),
      o_z = (spec_draw nxt seed (5 * i + 5) - 1 / 2) * (50 - (1 + spec_draw nxt seed (5 * i + 3) * 4)),
      width = 1 + spec_draw nxt seed (5 * i + 1) * 4,
      height = 2 + spec_draw nxt seed (5 * i + 2) * 6,
      depth = 1 + spec_draw nxt seed (5 * i + 3) * 4\<rparr>"

definition spec_walls :: "Obstacle list" where
  "spec_walls =
     [\<lparr>o_x = 0, o_z = 25, width = 50, height = 5, depth = 1\<rparr>,
      \<lparr>o_x = 0, o_z = - 25, width = 50, height = 5, depth = 1\<rparr>,
      \<lparr>o_x = 25, o_z = 0, width = 1, height = 5, depth = 50\<rparr>,
      \<lparr>o_x = - 25, o_z = 0, width = 1, height = 5, depth = 50\<rparr>]"

definition spec_obstacles :: "(nat \<Rightarrow> nat) \<Rightarrow> nat \<Rightarrow> Obstacle list" where
  "spec_obstacles nxt seed = map (spec_box nxt seed) [0..<40] @ spec_walls"

section \<open>Physics kernel (physics.ts)\<close>

definition checkObstacleCollision ::
  "real \<Rightarrow> real \<Rightarrow> real \<Rightarrow> real \<Rightarrow> real \<Rightarrow> Obstacle \<Rightarrow> bool" where
  "checkObstacleCollision x y z radius hgt obstacle =
     (let halfW = width obstacle / 2;
          halfD = depth obstacle / 2;
          closestX = max (o_x obstacle - halfW) (min x (o_x obstacle + halfW));
          closestZ = max (o_z obstacle - halfD) (min z (o_z obstacle + halfD));
          distX = x - closestX;
          distZ = z - closestZ;
          distSq = distX * distX + distZ * distZ
      in distSq < radius * radius \<and> y < height obstacle \<and> y + hgt > 0)"

definition checkCollision ::
  "real \<Rightarrow> real \<Rightarrow> real \<Rightarrow> real \<Rightarrow> real \<Rightarrow> Obstacle list \<Rightarrow> bool" where
  "checkCollision x y z radius hgt obstacles =
     list_ex (checkObstacleCollision x y z radius hgt) obstacles"

definition getGroundHeight :: "real \<Rightarrow> real \<Rightarrow> Obstacle list \<Rightarrow> real" where
  "getGroundHeight x z obstacles = 0"

definition applyPhysics ::
  "Vec3 \<Rightarrow> Vec3 \<Rightarrow> real \<Rightarrow> Obstacle list \<Rightarrow> Vec3 \<times> Vec3 \<times> bool" where
  "applyPhysics position velocity deltaTime obstacles =
     (let radius = PLAYER_RADIUS;
          hgt = PLAYER_HEIGHT;
          vel1 = velocity\<lparr>v_y := v_y velocity - GRAVITY * deltaTime\<rparr>;
          newX0 = v_x position + v_x vel1 * deltaTime;
          newY0 = v_y position + v_y vel1 * deltaTime;
          newZ0 = v_z position + v_z vel1 * deltaTime;
          hitX = checkCollision newX0 (v_y position) (v_z position) radius hgt obstacles;
          newX1 = (if hitX then v_x position else newX0);
          vel2 = (if hitX then vel1\<lparr>v_x := 0\<rparr> else vel1);
          hitZ = checkCollision newX1 (v_y position) newZ0 radius hgt obstacles;
          newZ1 = (if hitZ then v_z position else newZ0);
          vel3 = (if hitZ then vel2\<lparr>v_z := 0\<rparr> else vel2);
          groundY = getGroundHeight newX1 newZ1 obstacles;
          onGround = (newY0 \<le> groundY);
          hitY = (\<not> onGround \<and> checkCollision newX1 newY0 newZ1 radius hgt obstacles);
          newY1 = (if onGround then groundY else if hitY then v_y position else newY0);
          vel4 = (if onGround \<or> hitY then vel3\<lparr>v_y := 0\<rparr> else vel3);
          halfMap = MAP_SIZE / 2 - radius;
          newX2 = max (- halfMap) (min halfMap newX1);
          newZ2 = max (- halfMap) (min halfMap newZ1)
      in (\<lparr>v_x = newX2, v_y = newY1, v_z = newZ2\<rparr>, vel4, onGround))"

record RaycastHit =
  hit :: bool
  point :: Vec3
  distance :: real
  obstacleHit :: bool

definition rayStep :: real where "rayStep = 1 / 2"

definition insideObstacle :: "real \<Rightarrow> real \<Rightarrow> real \<Rightarrow> Obstacle \<Rightarrow> bool" where
  "insideObstacle x y z obs =
     (let halfW = width obs / 2; halfD = depth obs / 2
      in x \<ge> o_x obs - halfW \<and> x \<le> o_x obs + halfW \<and>
         z \<ge> o_z obs - halfD \<and> z \<le> o_z obs + halfD \<and>
         y \<ge> 0 \<and> y \<le> height obs)"

text \<open>
  The marching loop of \<open>raycast\<close>: \<open>n\<close> iterations remain, \<open>i\<close> is the loop counter,
  \<open>(x, y, z)\<close> the running point.
\<close>

fun raycastLoop ::
  "Obstacle list \<Rightarrow> real \<Rightarrow> real \<Rightarrow> real \<Rightarrow> real \<Rightarrow> nat \<Rightarrow> nat \<Rightarrow> real \<Rightarrow> real \<Rightarrow> real \<Rightarrow> RaycastHit"
  where
  "raycastLoop obstacles dx dy dz maxDistance 0 i x y z =
     \<lparr>hit = False, point = \<lparr>v_x = x, v_y = y, v_z = z\<rparr>, distance = maxDistance,
      obstacleHit = False\<rparr>"
| "raycastLoop obstacles dx dy dz maxDistance (Suc n) i x y z =
     (let x' = x + dx; y' = y + dy; z' = z + dz
      in if y' < 0 then
           \<lparr>hit = True, point = \<lparr>v_x = x', v_y = 0, v_z = z'\<rparr>, distance = real i * rayStep,
            obstacleHit = False\<rparr>
         else if list_ex (insideObstacle x' y' z') obstacles then
           \<lparr>hit = True, point = \<lparr>v_x = x', v_y = y', v_z = z'\<rparr>, distance = real i * rayStep,
            obstacleHit = True\<rparr>
         else raycastLoop obstacles dx dy dz maxDistance n (Suc i) x' y' z')"

definition raycast :: "Vec3 \<Rightarrow> Vec3 \<Rightarrow> real \<Rightarrow> Obstacle list \<Rightarrow> RaycastHit" where
  "raycast origin direction maxDistance obstacles =
     (let steps = nat \<lceil>maxDistance / rayStep\<rceil>
      in raycastLoop obstacles (v_x direction * rayStep) (v_y direction * rayStep)
           (v_z direction * rayStep) maxDistance steps 0
           (v_x origin) (v_y origin) (v_z origin))"

section \<open>The player (Player.ts)\<close>

definition newPlayer :: "nat \<Rightarrow> 8 word list \<Rightarrow> nat \<Rightarrow> Player" where
  "newPlayer i nm conn =
     \<lparr>pid = i, name = nm, ws = Some conn,
      px = 0, py = 0, pz = 0, vx = 0, vy = 0, vz = 0, yaw = 0, pitch = 0,
      health = MAX_HEALTH, isDead = False, respawnTime = 0,
      score = 0, kills = 0, deaths = 0,
      weapon = 0, isShooting = False, lastShootTime = 0,
      pendingInputs = [], lastProcessedInput = 0, grounded = False,
      historyX = replicate HISTORY_CAPACITY 0, historyY = replicate HISTORY_CAPACITY 0,
      historyZ = replicate HISTORY_CAPACITY 0, historyTime = replicate HISTORY_CAPACITY 0,
      historyHead = 0, historySize = 0\<rparr>"

definition spawn :: "world \<Rightarrow> Player \<Rightarrow> Obstacle list \<Rightarrow> world \<times> Player" where
  "spawn w p obstacles =
     (let p1 = p\<lparr>health := MAX_HEALTH, isDead := False, vx := 0, vy := 0, vz := 0,
                 isShooting := False, respawnTime := 0, historySize := 0, historyHead := 0\<rparr>;
          halfMap = MAP_SIZE / 2 - 2;
          (r1, w1) = Math_random w;
          (r2, w2) = Math_random w1
      in (w2, p1\<lparr>px := (r1 - 1 / 2) * halfMap * 2, pz := (r2 - 1 / 2) * halfMap * 2, py := 5\<rparr>))"

definition processInput :: "Player \<Rightarrow> InputData \<Rightarrow> real \<Rightarrow> Obstacle list \<Rightarrow> Player" where
  "processInput p input deltaTime obstacles =
     (if isDead p then p
      else
        let p1 = p\<lparr>yaw := i_yaw input, pitch := i_pitch input,
                   weapon := i_weapon input, isShooting := shoot input\<rparr>;
            speed = (if sprint input then MOVE_SPEED * SPRINT_MULTIPLIER
                     else if sneak input then MOVE_SPEED * SNEAK_MULTIPLIER
                     else MOVE_SPEED);
            dz0 = (if forward input then 1 else 0) - (if backward input then 1 else (0::real));
            dx0 = - (if left input then 1 else 0) + (if right input then 1 else (0::real));
            len = sqrt (dx0 * dx0 + dz0 * dz0);
            dx = (if dx0 \<noteq> 0 \<or> dz0 \<noteq> 0 then dx0 / len else dx0);
            dz = (if dx0 \<noteq> 0 \<or> dz0 \<noteq> 0 then dz0 / len else dz0);
            sn = sin (yaw p1);
            cs = cos (yaw p1);
            moveX = (dx * cs + dz * sn) * speed;
            moveZ = (- dx * sn + dz * cs) * speed;
            p2 = p1\<lparr>vx := moveX, vz := moveZ\<rparr>;
            p3 = (if jump input \<and> grounded p2 then p2\<lparr>vy := JUMP_FORCE, grounded := False\<rparr>
                  else p2);
            (pos, vel, g) = applyPhysics \<lparr>v_x = px p3, v_y = py p3, v_z = pz p3\<rparr>
                              \<lparr>v_x = vx p3, v_y = vy p3, v_z = vz p3\<rparr> deltaTime obstacles
        in p3\<lparr>px := v_x pos, py := v_y pos, pz := v_z pos,
              vx := v_x vel, vy := v_y vel, vz := v_z vel,
              grounded := g, lastProcessedInput := seq input\<rparr>)"

definition canShoot :: "Player \<Rightarrow> real \<Rightarrow> bool \<times> Player" where
  "canShoot p currentTime =
     (if isDead p then (False, p)
      else if \<not> isShooting p then (False, p)
      else case weaponAt (weapon p) of
             None \<Rightarrow> (False, p)
           | Some weaponConfig \<Rightarrow>
               if currentTime - lastShootTime p \<ge> fireRate weaponConfig
               then (True, p\<lparr>lastShootTime := currentTime\<rparr>)
               else (False, p))"

definition takeDamage :: "Player \<Rightarrow> int \<Rightarrow> nat \<Rightarrow> bool \<times> Player" where
  "takeDamage p dmg attackerId =
     (if isDead p then (False, p)
      else
        let p1 = p\<lparr>health := health p - dmg\<rparr>
        in if health p1 \<le> 0
           then (True, p1\<lparr>health := 0, isDead := True, deaths := deaths p1 + 1\<rparr>)
           else (False, p1))"

definition getEyePosition :: "Player \<Rightarrow> Vec3" where
  "getEyePosition p = \<lparr>v_x = px p, v_y = py p + PLAYER_HEIGHT - 2 / 10, v_z = pz p\<rparr>"

definition getLookDirection :: "Player \<Rightarrow> Vec3" where
  "getLookDirection p =
     \<lparr>v_x = sin (yaw p) * cos (pitch p), v_y = - sin (pitch p), v_z = cos (yaw p) * cos (pitch p)\<rparr>"

definition saveHistory :: "Player \<Rightarrow> real \<Rightarrow> Player" where
  "saveHistory p ts =
     (let idx = historyHead p;
          p1 = p\<lparr>historyX := (historyX p)[idx := px p],
                 historyY := (historyY p)[idx := py p],
                 historyZ := (historyZ p)[idx := pz p],
                 historyTime := (historyTime p)[idx := ts]\<rparr>;
          p2 = p1\<lparr>historyHead := (historyHead p1 + 1) mod HISTORY_CAPACITY\<rparr>
      in if historySize p2 < HISTORY_CAPACITY then p2\<lparr>historySize := historySize p2 + 1\<rparr>
         else p2)"

definition slotAt :: "Player \<Rightarrow> nat \<Rightarrow> Vec3" where
  "slotAt p idx = \<lparr>v_x = historyX p ! idx, v_y = historyY p ! idx, v_z = historyZ p ! idx\<rparr>"

definition prevIndex :: "nat \<Rightarrow> nat" where
  "prevIndex idx = (idx + HISTORY_CAPACITY - 1) mod HISTORY_CAPACITY"

text \<open>
  The search loop of \<open>getPositionAt\<close>: \<open>n\<close> iterations remain and \<open>idx\<close> is the
  loop's running index. Leaving the loop, by exhaustion or by \<open>break\<close>, returns the slot
  at \<open>idx\<close>.
\<close>

fun historyWalk :: "Player \<Rightarrow> real \<Rightarrow> nat \<Rightarrow> nat \<Rightarrow> Vec3" where
  "historyWalk p ts 0 idx = slotAt p idx"
| "historyWalk p ts (Suc n) idx =
     (let currIdx = idx;
          prevIdx = prevIndex idx;
          currTime = historyTime p ! currIdx;
          prevTime = historyTime p ! prevIdx
      in if ts \<le> currTime \<and> ts \<ge> prevTime then
           (let t = (ts - prevTime) / (currTime - prevTime)
            in \<lparr>v_x = historyX p ! prevIdx + (historyX p ! currIdx - historyX p ! prevIdx) * t,
                v_y = historyY p ! prevIdx + (historyY p ! currIdx - historyY p ! prevIdx) * t,
                v_z = historyZ p ! prevIdx + (historyZ p ! currIdx - historyZ p ! prevIdx) * t\<rparr>)
         else if currTime < ts - 1000 then slotAt p prevIdx
         else historyWalk p ts n prevIdx)"

definition getPositionAt :: "Player \<Rightarrow> real \<Rightarrow> Vec3 option" where
  "getPositionAt p ts =
     (if historySize p = 0 then None
      else
        let idx = prevIndex (historyHead p)
        in if ts \<ge> historyTime p ! idx then Some (slotAt p idx)
           else Some (historyWalk p ts (historySize p - 1) idx))"

definition getState :: "Player \<Rightarrow> PlayerState" where
  "getState p =
     \<lparr>s_id = pid p, s_x = px p, s_y = py p, s_z = pz p,
      s_vx = vx p, s_vy = vy p, s_vz = vz p, s_yaw = yaw p, s_pitch = pitch p,
      s_health = health p, s_weapon = weapon p, s_isShooting = isShooting p,
      s_isDead = isDead p, s_score = score p\<rparr>"

section \<open>Game mode (GameMode.ts, FreeForAllMode.ts)\<close>

record FreeForAllMode =
  scoreLimit :: int
  timeLimit :: real
  startTime :: real

definition onPlayerKill :: "Player \<Rightarrow> bool \<Rightarrow> Player" where
  "onPlayerKill killer hs =
     killer\<lparr>score := score killer + (if hs then 2 else 1), kills := kills killer + 1\<rparr>"

definition onPlayerDeath :: "world \<Rightarrow> Player \<Rightarrow> world \<times> Player" where
  "onPlayerDeath w p =
     (let (now, w1) = Date_now w in (w1, p\<lparr>respawnTime := now + RESPAWN_TIME\<rparr>))"

definition getSpawnPosition :: "world \<Rightarrow> Player \<Rightarrow> Obstacle list \<Rightarrow> Vec3 \<times> world" where
  "getSpawnPosition w p obstacles =
     (let halfMap = MAP_SIZE / 2 - 2;
          (r1, w1) = Math_random w;
          (r2, w2) = Math_random w1
      in (\<lparr>v_x = (r1 - 1 / 2) * halfMap * 2, v_y = 0, v_z = (r2 - 1 / 2) * halfMap * 2\<rparr>, w2))"

definition shouldEndGame :: "world \<Rightarrow> FreeForAllMode \<Rightarrow> Player list \<Rightarrow> bool \<times> world" where
  "shouldEndGame w m ps =
     (if scoreLimit m > 0 \<and> list_ex (\<lambda>p. score p \<ge> scoreLimit m) ps then (True, w)
      else if timeLimit m > 0 then
        (let (now, w1) = Date_now w in (now - startTime m \<ge> timeLimit m, w1))
      else (False, w))"

definition mode_tick :: "world \<Rightarrow> Player list \<Rightarrow> world \<times> Player list" where
  "mode_tick w ps =
     (let (now, w1) = Date_now w
      in (w1, map (\<lambda>p. if isDead p \<and> respawnTime p > 0 \<and> now \<ge> respawnTime p
                        then p\<lparr>respawnTime := 0\<rparr> else p) ps))"

section \<open>Snapshot encoding (protocol.ts)\<close>

text \<open>
  The snapshot as its receiver reads it. \<open>setUint32\<close> stores a number modulo \<open>2^32\<close>. The
  scratch buffer holds \<open>19 + 32 * 40 + 16 * 6\<close> bytes; a write beyond it throws
  \<open>RangeError\<close>, which is \<open>None\<close> here.
\<close>

record WorldSnapshot =
  snap_tick :: nat
  snap_timestamp :: real
  snap_players :: "PlayerState list"
  snap_hits :: "HitEvent list"
  snap_lastProcessedInput :: nat

definition SNAPSHOT_BUFFER_SIZE :: nat where
  "SNAPSHOT_BUFFER_SIZE = 19 + 32 * 40 + 16 * 6"

definition encodeSnapshot ::
  "nat \<Rightarrow> real \<Rightarrow> PlayerState list \<Rightarrow> HitEvent list \<Rightarrow> nat \<Rightarrow> WorldSnapshot option" where
  "encodeSnapshot tk ts pstates hits lastInput =
     (if 19 + 40 * length pstates + 6 * length hits > SNAPSHOT_BUFFER_SIZE then None
      else Some \<lparr>snap_tick = tk mod 2 ^ 32, snap_timestamp = ts, snap_players = pstates,
                 snap_hits = hits, snap_lastProcessedInput = lastInput mod 2 ^ 32\<rparr>)"

section \<open>The room (Room.ts)\<close>

text \<open>Position of the first element that satisfies \<open>P\<close> (a \<open>Map\<close> lookup by key).\<close>

fun find_index :: "('a \<Rightarrow> bool) \<Rightarrow> 'a list \<Rightarrow> nat option" where
  "find_index P [] = None"
| "find_index P (x # xs) =
     (if P x then Some 0 else map_option Suc (find_index P xs))"


datatype room_id = NoRoom | Lobby | RoomN nat

record Room =
  rid :: room_id
  maxPlayers :: nat
  players :: "Player list"
  gameMode :: FreeForAllMode
  obstacles :: "Obstacle list"
  tick :: nat
  running :: bool
  snapshotHits :: "HitEvent list"
  tickRate :: nat
  nextPlayerId :: nat

text \<open>
  \<open>players\<close> is the \<open>Map\<close> from id to player in insertion order, each player stored with
  its own id as key; a player object is referred to by its position in that list.
  \<open>running\<close> says that \<open>tickInterval\<close> is set.
\<close>

definition raySphereIntersect :: "Vec3 \<Rightarrow> Vec3 \<Rightarrow> Vec3 \<Rightarrow> real \<Rightarrow> real \<Rightarrow> real option" where
  "raySphereIntersect origin direction center radius maxDistance =
     (let dx = v_x origin - v_x center;
          dy = v_y origin - v_y center;
          dz = v_z origin - v_z center;
          a = v_x direction * v_x direction + v_y direction * v_y direction
              + v_z direction * v_z direction;
          b = 2 * (dx * v_x direction + dy * v_y direction + dz * v_z direction);
          c = dx * dx + dy * dy + dz * dz - radius * radius;
          discriminant = b * b - 4 * a * c
      in if discriminant < 0 then None
         else let t = (- b - sqrt discriminant) / (2 * a)
              in if t > 0 \<and> t < maxDistance then Some t else None)"

text \<open>\<open>checkPlayerHit\<close> returns the distance and the headshot flag of a hit.\<close>

definition checkPlayerHit :: "Vec3 \<Rightarrow> Vec3 \<Rightarrow> Player \<Rightarrow> real \<Rightarrow> (real \<times> bool) option" where
  "checkPlayerHit origin direction target maxDistance =
     (let bodyRadius = PLAYER_RADIUS;
          bodyCenter = \<lparr>v_x = px target, v_y = py target + PLAYER_HEIGHT / 2, v_z = pz target\<rparr>;
          headRadius = HEAD_HEIGHT;
          headCenter = \<lparr>v_x = px target, v_y = py target + PLAYER_HEIGHT - headRadius,
                        v_z = pz target\<rparr>
      in case raySphereIntersect origin direction headCenter headRadius maxDistance of
           Some d \<Rightarrow> Some (d, True)
         | None \<Rightarrow>
             (case raySphereIntersect origin direction bodyCenter (bodyRadius * (15 / 10))
                     maxDistance of
                Some d \<Rightarrow> Some (d, False)
              | None \<Rightarrow> None))"

text \<open>
  The loop over targets of \<open>handleShoot\<close>. Its state is \<open>(hitPlayer, hitDistance,
  isHeadshot)\<close>; \<open>ti\<close> is the position of \<open>target\<close> in the player list.
\<close>

definition scanTarget ::
  "Player \<Rightarrow> Vec3 \<Rightarrow> Vec3 \<Rightarrow> real \<Rightarrow> real \<Rightarrow> nat \<Rightarrow> Player
     \<Rightarrow> nat option \<times> real \<times> bool \<Rightarrow> nat option \<times> real \<times> bool" where
  "scanTarget shooter origin direction rewindTime wrange ti target st =
     (case st of (hitPlayer, hitDistance, isHeadshot) \<Rightarrow>
        if pid target = pid shooter \<or> isDead target then st
        else case getPositionAt target rewindTime of
               None \<Rightarrow> st
             | Some pastPos \<Rightarrow>
                 (let ghostTarget = target\<lparr>px := v_x pastPos, py := v_y pastPos,
                                            pz := v_z pastPos\<rparr>
                  in case checkPlayerHit origin direction ghostTarget wrange of
                       None \<Rightarrow> st
                     | Some (d, hs) \<Rightarrow> if d < hitDistance then (Some ti, d, hs) else st))"

fun scanTargets ::
  "Player \<Rightarrow> Vec3 \<Rightarrow> Vec3 \<Rightarrow> real \<Rightarrow> real \<Rightarrow> Player list \<Rightarrow> nat
     \<Rightarrow> nat option \<times> real \<times> bool \<Rightarrow> nat option \<times> real \<times> bool" where
  "scanTargets shooter origin direction rewindTime wrange [] ti st = st"
| "scanTargets shooter origin direction rewindTime wrange (target # rest) ti st =
     scanTargets shooter origin direction rewindTime wrange rest (Suc ti)
       (scanTarget shooter origin direction rewindTime wrange ti target st)"

text \<open>
  The block ``apply damage'' of \<open>handleShoot\<close>, entered when \<open>hitPlayer\<close> is the player
  at position \<open>ti\<close>; \<open>si\<close> is the shooter's position.
\<close>

definition applyDamage :: "world \<Rightarrow> Room \<Rightarrow> nat \<Rightarrow> WeaponConfig \<Rightarrow> nat \<Rightarrow> bool \<Rightarrow> world \<times> Room" where
  "applyDamage w r si wpn ti isHeadshot =
     (let shooter = players r ! si;
          dmg = (if isHeadshot then w_damage wpn * 2 else w_damage wpn);
          (killed, target') = takeDamage (players r ! ti) dmg (pid shooter);
          r1 = r\<lparr>players := (players r)[ti := target'],
                 snapshotHits := snapshotHits r @
                   [\<lparr>shooterId = pid shooter, targetId = pid target', damage = dmg,
                     headshot = isHeadshot\<rparr>]\<rparr>
      in if killed then
           (let r2 = r1\<lparr>players :=
                       (players r1)[si := onPlayerKill (players r1 ! si) isHeadshot]\<rparr>;
                (w1, victim) = onPlayerDeath w (players r2 ! ti)
            in (w1, r2\<lparr>players := (players r2)[ti := victim]\<rparr>))
         else (w, r1))"

text \<open>
  One bullet once its direction is fixed: the scan over the targets, the obstacle test
  and the damage.
\<close>

definition resolveBullet ::
  "world \<Rightarrow> Room \<Rightarrow> nat \<Rightarrow> WeaponConfig \<Rightarrow> Vec3 \<Rightarrow> Vec3 \<Rightarrow> real \<Rightarrow> world \<times> Room" where
  "resolveBullet w r si wpn origin direction rewindTime =
     (let shooter = players r ! si;
          (hitPlayer0, hitDistance, isHeadshot) =
             scanTargets shooter origin direction rewindTime (range wpn) (players r) 0
               (None, range wpn, False);
          obstacleHit = raycast origin direction hitDistance (obstacles r);
          hitPlayer = (if hit obstacleHit \<and> distance obstacleHit < hitDistance then None
                       else hitPlayer0)
      in case hitPlayer of
           None \<Rightarrow> (w, r)
         | Some ti \<Rightarrow> applyDamage w r si wpn ti isHeadshot)"

definition fireBullet :: "world \<Rightarrow> Room \<Rightarrow> nat \<Rightarrow> WeaponConfig \<Rightarrow> real \<Rightarrow> world \<times> Room" where
  "fireBullet w r si wpn rewindTime =
     (let shooter = players r ! si;
          origin = getEyePosition shooter;
          direction = getLookDirection shooter
      in if spread wpn > 0 then
           (let (r1, w1) = Math_random w;
                ex = v_x direction + (r1 - 1 / 2) * spread wpn;
                (r2, w2) = Math_random w1;
                ey = v_y direction + (r2 - 1 / 2) * spread wpn;
                (r3, w3) = Math_random w2;
                ez = v_z direction + (r3 - 1 / 2) * spread wpn;
                len = sqrt (ex * ex + ey * ey + ez * ez)
            in resolveBullet w3 r si wpn origin
                 \<lparr>v_x = ex / len, v_y = ey / len, v_z = ez / len\<rparr> rewindTime)
         else resolveBullet w r si wpn origin direction rewindTime)"

fun fireBullets :: "nat \<Rightarrow> world \<Rightarrow> Room \<Rightarrow> nat \<Rightarrow> WeaponConfig \<Rightarrow> real \<Rightarrow> world \<times> Room" where
  "fireBullets 0 w r si wpn rewindTime = (w, r)"
| "fireBullets (Suc n) w r si wpn rewindTime =
     (let (w1, r1) = fireBullet w r si wpn rewindTime
      in fireBullets n w1 r1 si wpn rewindTime)"

text \<open>
  \<open>handleShoot\<close>. After \<open>canShoot\<close> has returned true the weapon table has an entry for
  the shooter's weapon, so the \<open>None\<close> branch below is never taken.
\<close>

definition handleShoot :: "world \<Rightarrow> Room \<Rightarrow> nat \<Rightarrow> real \<Rightarrow> world \<times> Room" where
  "handleShoot w r si shootTime =
     (let (now, w1) = Date_now w;
          (ok, shooter) = canShoot (players r ! si) now;
          r1 = r\<lparr>players := (players r)[si := shooter]\<rparr>
      in if \<not> ok then (w1, r1)
         else
           let rewindTime = shootTime
           in case weaponAt (weapon shooter) of
                None \<Rightarrow> (w1, r1)
              | Some wpn \<Rightarrow>
                  fireBullets (if bulletCount wpn = 0 then 1 else bulletCount wpn)
                    w1 r1 si wpn rewindTime)"

text \<open>
  The input loop of \<open>gameTick\<close> for the player at position \<open>i\<close>, run over that player's
  queue as it stood when the loop began.
\<close>

fun drainInputs :: "InputData list \<Rightarrow> nat \<Rightarrow> world \<Rightarrow> Room \<Rightarrow> world \<times> Room" where
  "drainInputs [] i w r = (w, r)"
| "drainInputs (input # rest) i w r =
     (let fixedDeltaTime = 1 / real (tickRate r);
          r1 = r\<lparr>players :=
                  (players r)[i := processInput (players r ! i) input fixedDeltaTime
                                     (obstacles r)]\<rparr>;
          (w2, r2) =
            (if shoot input then
               (let (now, w1) = Date_now w;
                    maxLag = MAX_LAG_COMPENSATION;
                    shootTime0 = timestamp input;
                    shootTime1 = (if shootTime0 < now - maxLag then now - maxLag
                                  else shootTime0);
                    shootTime2 = (if shootTime1 > now then now else shootTime1)
                in handleShoot w1 r1 i shootTime2)
             else (w, r1))
      in drainInputs rest i w2 r2)"

definition drainPlayer :: "nat \<Rightarrow> world \<times> Room \<Rightarrow> world \<times> Room" where
  "drainPlayer i wr =
     (case wr of (w, r) \<Rightarrow>
        let (w1, r1) = drainInputs (pendingInputs (players r ! i)) i w r;
            p1 = (players r1 ! i)\<lparr>pendingInputs := []\<rparr>;
            (now, w2) = Date_now w1
        in (w2, r1\<lparr>players := (players r1)[i := saveHistory p1 now]\<rparr>))"

fun respawnLoop ::
  "real \<Rightarrow> Obstacle list \<Rightarrow> Player list \<Rightarrow> world \<Rightarrow> world \<times> Player list" where
  "respawnLoop now obs [] w = (w, [])"
| "respawnLoop now obs (p # ps) w =
     (let (w1, p1) =
            (if isDead p \<and> respawnTime p > 0 \<and> now \<ge> respawnTime p then
               (let (pos, wa) = getSpawnPosition w p obs
                in (wa, p\<lparr>px := v_x pos, py := v_y pos, pz := v_z pos,
                          health := MAX_HEALTH, isDead := False, respawnTime := 0\<rparr>))
             else (w, p));
          (w2, ps') = respawnLoop now obs ps w1
      in (w2, p1 # ps'))"

definition processRespawns :: "world \<Rightarrow> Room \<Rightarrow> world \<times> Room" where
  "processRespawns w r =
     (let (now, w1) = Date_now w;
          (w2, ps) = respawnLoop now (obstacles r) (players r) w1
      in (w2, r\<lparr>players := ps\<rparr>))"

fun respawnAll :: "Obstacle list \<Rightarrow> Player list \<Rightarrow> world \<Rightarrow> world \<times> Player list" where
  "respawnAll obs [] w = (w, [])"
| "respawnAll obs (p # ps) w =
     (let (w1, p1) = spawn w (p\<lparr>score := 0, kills := 0, deaths := 0\<rparr>) obs;
          (w2, ps') = respawnAll obs ps w1
      in (w2, p1 # ps'))"

definition handleGameEnd :: "world \<Rightarrow> Room \<Rightarrow> world \<times> Room" where
  "handleGameEnd w r =
     (let (w1, ps) = respawnAll (obstacles r) (players r) w
      in (w1, r\<lparr>tick := 0, players := ps\<rparr>))"

text \<open>
  \<open>broadcastSnapshot\<close>: the list of (connection, snapshot) pairs handed to \<open>ws.send\<close>. The
  clock is read before \<open>encodeSnapshot\<close> runs; an exception of the encoder is swallowed by
  the \<open>catch\<close> and nothing is sent to that player.
\<close>

fun broadcastLoop ::
  "Room \<Rightarrow> Player list \<Rightarrow> world \<Rightarrow> world \<times> (nat \<times> WorldSnapshot) list" where
  "broadcastLoop r [] w = (w, [])"
| "broadcastLoop r (p # ps) w =
     (case ws p of
        None \<Rightarrow> broadcastLoop r ps w
      | Some conn \<Rightarrow>
          (let playerStates = map getState (players r);
               (now, w1) = Date_now w;
               (w2, sent) = broadcastLoop r ps w1
           in case encodeSnapshot (tick r) now playerStates (snapshotHits r)
                     (lastProcessedInput p) of
                None \<Rightarrow> (w2, sent)
              | Some buffer \<Rightarrow> (w2, (conn, buffer) # sent)))"

definition broadcastSnapshot :: "world \<Rightarrow> Room \<Rightarrow> world \<times> (nat \<times> WorldSnapshot) list" where
  "broadcastSnapshot w r = broadcastLoop r (players r) w"

definition drainAll :: "world \<Rightarrow> Room \<Rightarrow> world \<times> Room" where
  "drainAll w r = fold drainPlayer [0..<length (players r)] (w, r)"

definition gameTick :: "world \<Rightarrow> Room \<Rightarrow> (world \<times> Room) \<times> (nat \<times> WorldSnapshot) list" where
  "gameTick w r =
     (let r0 = r\<lparr>tick := tick r + 1, snapshotHits := []\<rparr>;
          (w1, r1) = drainAll w r0;
          (w2, r2) = processRespawns w1 r1;
          (w3, ps3) = mode_tick w2 (players r2);
          r3 = r2\<lparr>players := ps3\<rparr>;
          (ended, w4) = shouldEndGame w3 (gameMode r3) (players r3);
          (w5, r5) = (if ended then handleGameEnd w4 r3 else (w4, r3));
          (w6, sent) = broadcastSnapshot w5 r5
      in ((w6, r5), sent))"

definition start :: "Room \<Rightarrow> Room" where
  "start r = (if running r then r else r\<lparr>running := True\<rparr>)"

definition stop :: "Room \<Rightarrow> Room" where
  "stop r = (if running r then r\<lparr>running := False\<rparr> else r)"

text \<open>
  \<open>addPlayer\<close> also returns the new player, or \<open>None\<close> for \<open>null\<close>; the caller stores the
  player's id and the room's id in the socket's user data.
\<close>

definition addPlayer ::
  "world \<Rightarrow> Room \<Rightarrow> 8 word list \<Rightarrow> nat \<Rightarrow> world \<times> Room \<times> Player option" where
  "addPlayer w r nm conn =
     (if length (players r) \<ge> maxPlayers r then (w, r, None)
      else
        let i = nextPlayerId r;
            r1 = r\<lparr>nextPlayerId := i + 1\<rparr>;
            (w1, player) = spawn w (newPlayer i nm conn) (obstacles r1);
            r2 = r1\<lparr>players := players r1 @ [player]\<rparr>;
            r3 = (if length (players r2) = 1 then start r2 else r2)
        in (w1, r3, Some player))"

definition removePlayer :: "Room \<Rightarrow> nat \<Rightarrow> Room" where
  "removePlayer r playerId =
     (if list_ex (\<lambda>p. pid p = playerId) (players r) then
        (let r1 = r\<lparr>players := filter (\<lambda>p. pid p \<noteq> playerId) (players r)\<rparr>
         in if players r1 = [] then stop r1 else r1)
      else r)"

text \<open>\<open>Room.processInput\<close>: queue the input for the player with that id, if there is one.\<close>

definition queueInput :: "Room \<Rightarrow> nat \<Rightarrow> InputData \<Rightarrow> Room" where
  "queueInput r playerId input =
     (case find_index (\<lambda>p. pid p = playerId) (players r) of
        None \<Rightarrow> r
      | Some i \<Rightarrow>
          r\<lparr>players := (players r)[i := (players r ! i)
                \<lparr>pendingInputs := pendingInputs (players r ! i) @ [input]\<rparr>]\<rparr>)"

section \<open>Inbound messages (protocol.ts, index.ts)\<close>

datatype js_error = RangeError

definition JOIN :: nat where "JOIN = 1"
definition INPUT :: nat where "INPUT = 2"
definition PING :: nat where "PING = 3"

text \<open>
  \<open>DataView\<close> reads throw \<open>RangeError\<close> when the field does not lie within the buffer.
  The conversion of four or eight bytes to a float is a parameter (\<open>f32\<close>, \<open>f64\<close>).
\<close>

definition getUint8 :: "8 word list \<Rightarrow> nat \<Rightarrow> js_error + nat" where
  "getUint8 buf off = (if off + 1 > length buf then Inl RangeError else Inr (unat (buf ! off)))"

definition getUint32 :: "8 word list \<Rightarrow> nat \<Rightarrow> js_error + nat" where
  "getUint32 buf off =
     (if off + 4 > length buf then Inl RangeError
      else Inr (unat (buf ! off) + 256 * unat (buf ! (off + 1))
                + 65536 * unat (buf ! (off + 2)) + 16777216 * unat (buf ! (off + 3))))"

definition getFloat :: "nat \<Rightarrow> (8 word list \<Rightarrow> real) \<Rightarrow> 8 word list \<Rightarrow> nat \<Rightarrow> js_error + real" where
  "getFloat n conv buf off =
     (if off + n > length buf then Inl RangeError else Inr (conv (take n (drop off buf))))"

definition flagSet :: "nat \<Rightarrow> nat \<Rightarrow> bool" where
  "flagSet flags m = ((flags div m) mod 2 \<noteq> 0)"

definition decodeInput ::
  "(8 word list \<Rightarrow> real) \<Rightarrow> (8 word list \<Rightarrow> real) \<Rightarrow> 8 word list \<Rightarrow> js_error + InputData" where
  "decodeInput f32 f64 buf =
     (case getUint32 buf 1 of Inl e \<Rightarrow> Inl e | Inr sq \<Rightarrow>
      case getUint8 buf 5 of Inl e \<Rightarrow> Inl e | Inr flags \<Rightarrow>
      case getUint8 buf 6 of Inl e \<Rightarrow> Inl e | Inr wp \<Rightarrow>
      case getFloat 4 f32 buf 7 of Inl e \<Rightarrow> Inl e | Inr yw \<Rightarrow>
      case getFloat 4 f32 buf 11 of Inl e \<Rightarrow> Inl e | Inr pt \<Rightarrow>
      case getFloat 8 f64 buf 15 of Inl e \<Rightarrow> Inl e | Inr ts \<Rightarrow>
        Inr \<lparr>seq = sq,
             forward = flagSet flags 1, backward = flagSet flags 2,
             left = flagSet flags 4, right = flagSet flags 8,
             jump = flagSet flags 16, sprint = flagSet flags 32,
             sneak = flagSet flags 64, shoot = flagSet flags 128,
             i_weapon = wp, i_yaw = yw, i_pitch = pt, timestamp = ts\<rparr>)"

text \<open>
  \<open>decodeJoinRequest\<close>: \<open>view[1]\<close> is \<open>undefined\<close> on a one-byte buffer, which makes the
  slice empty; \<open>slice\<close> stops at the end of the buffer. The name is kept as its bytes.
\<close>

definition decodeJoinRequest :: "8 word list \<Rightarrow> 8 word list" where
  "decodeJoinRequest buf =
     (let nameLength = (if 1 < length buf then unat (buf ! 1) else 0)
      in take nameLength (drop 2 buf))"

definition getMessageType :: "8 word list \<Rightarrow> nat option" where
  "getMessageType buf = (case buf of [] \<Rightarrow> None | b # _ \<Rightarrow> Some (unat b))"

definition byteOf :: "nat \<Rightarrow> 8 word" where
  "byteOf n = of_nat (n mod 256)"

definition encodeWelcome :: "nat \<Rightarrow> nat \<Rightarrow> nat \<Rightarrow> 8 word list" where
  "encodeWelcome playerId tkRate mapSeed =
     [1, byteOf playerId, byteOf (playerId div 256), byteOf tkRate,
      byteOf mapSeed, byteOf (mapSeed div 256), byteOf (mapSeed div 65536),
      byteOf (mapSeed div 16777216)]"

record Config =
  TICK_RATE :: nat
  MAX_PLAYERS_PER_ROOM :: nat
  MAP_SEED :: nat

record SocketData =
  playerId :: nat
  roomId :: room_id

text \<open>The registry \<open>rooms\<close>: the rooms in insertion order, each under its own id.\<close>

definition newRoom :: "Config \<Rightarrow> world \<Rightarrow> room_id \<Rightarrow> world \<times> Room" where
  "newRoom cfg w i =
     (let (now, w1) = Date_now w
      in (w1, \<lparr>rid = i, maxPlayers = MAX_PLAYERS_PER_ROOM cfg, players = [],
               gameMode = \<lparr>scoreLimit = 0, timeLimit = 0, startTime = now\<rparr>,
               obstacles = generateObstacles (MAP_SEED cfg), tick = 0, running = False,
               snapshotHits = [], tickRate = TICK_RATE cfg, nextPlayerId = 1\<rparr>))"

definition getOrCreateRoom ::
  "Config \<Rightarrow> world \<Rightarrow> Room list \<Rightarrow> room_id \<Rightarrow> world \<times> Room list \<times> nat" where
  "getOrCreateRoom cfg w rooms i =
     (case find_index (\<lambda>r. rid r = i) rooms of
        Some k \<Rightarrow> (w, rooms, k)
      | None \<Rightarrow> (let (w1, room) = newRoom cfg w i in (w1, rooms @ [room], length rooms)))"

definition isFull :: "Room \<Rightarrow> bool" where
  "isFull r = (length (players r) \<ge> maxPlayers r)"

definition findAvailableRoom :: "Config \<Rightarrow> world \<Rightarrow> Room list \<Rightarrow> world \<times> Room list \<times> nat" where
  "findAvailableRoom cfg w rooms =
     (case find_index (\<lambda>r. \<not> isFull r) rooms of
        Some k \<Rightarrow> (w, rooms, k)
      | None \<Rightarrow> getOrCreateRoom cfg w rooms (RoomN (length rooms + 1)))"

datatype action = Send "8 word list" | Close

text \<open>
  The \<open>message\<close> callback of the socket \<open>conn\<close> with user data \<open>d\<close>. It returns the new
  registry, the new user data and what was done on the socket, or the exception that
  leaves the callback.
\<close>

definition message ::
  "Config \<Rightarrow> (8 word list \<Rightarrow> real) \<Rightarrow> (8 word list \<Rightarrow> real) \<Rightarrow> world \<Rightarrow> Room list \<Rightarrow> nat
     \<Rightarrow> SocketData \<Rightarrow> 8 word list \<Rightarrow> bool
     \<Rightarrow> js_error + (world \<times> Room list \<times> SocketData \<times> action list)" where
  "message cfg f32 f64 w rooms conn d msg isBinary =
     (if \<not> isBinary then Inr (w, rooms, d, [])
      else
        let messageType = getMessageType msg
        in if messageType = Some JOIN then
             (let request = decodeJoinRequest msg;
                  (w1, rooms1, k) = findAvailableRoom cfg w rooms;
                  (w2, room, player) = addPlayer w1 (rooms1 ! k) request conn;
                  rooms2 = rooms1[k := room]
              in case player of
                   Some p \<Rightarrow>
                     Inr (w2, rooms2, \<lparr>playerId = pid p, roomId = rid room\<rparr>,
                          [Send (encodeWelcome (pid p) (TICK_RATE cfg) (MAP_SEED cfg))])
                 | None \<Rightarrow> Inr (w2, rooms2, d, [Close]))
           else if messageType = Some INPUT then
             (if playerId d = 0 \<or> roomId d = NoRoom then Inr (w, rooms, d, [])
              else case decodeInput f32 f64 msg of
                     Inl e \<Rightarrow> Inl e
                   | Inr input \<Rightarrow>
                       (case find_index (\<lambda>r. rid r = roomId d) rooms of
                          Some k \<Rightarrow>
                            Inr (w, rooms[k := queueInput (rooms ! k) (playerId d) input], d, [])
                        | None \<Rightarrow> Inr (w, rooms, d, [])))
           else if messageType = Some PING then Inr (w, rooms, d, [Send msg])
           else Inr (w, rooms, d, []))"

section \<open>Notions used to state the properties\<close>

subsection \<open>Shots of one player over time\<close>

text \<open>
  A history of one player: a list of shot attempts, each preceded by whatever else the
  server did to the player since the previous attempt (\<open>f\<close>) and made at server time
  \<open>t\<close>. \<open>shots\<close> lists the attempts that pass \<open>canShoot\<close>, with the time and the weapon
  held. \<open>gaps_ok lst log\<close> says that every entry of the log is at least the fire
  interval of its weapon after the entry before it, the first one after \<open>lst\<close>.
\<close>

fun shots :: "Player \<Rightarrow> ((Player \<Rightarrow> Player) \<times> real) list \<Rightarrow> (real \<times> nat) list" where
  "shots p [] = []"
| "shots p ((f, t) # evs) =
     (let q = f p; (ok, q') = canShoot q t
      in if ok then (t, weapon q) # shots q' evs else shots q' evs)"

fun gaps_ok :: "real \<Rightarrow> (real \<times> nat) list \<Rightarrow> bool" where
  "gaps_ok lst [] = True"
| "gaps_ok lst ((t, wi) # rest) =
     (case weaponAt wi of
        None \<Rightarrow> False
      | Some c \<Rightarrow> t - lst \<ge> fireRate c \<and> gaps_ok t rest)"

subsection \<open>Successive hits on one player\<close>

fun takeDamages :: "Player \<Rightarrow> int list \<Rightarrow> nat \<Rightarrow> bool list \<times> Player" where
  "takeDamages p [] a = ([], p)"
| "takeDamages p (d # ds) a =
     (let (killed, p1) = takeDamage p d a; (ks, p2) = takeDamages p1 ds a
      in (killed # ks, p2))"

definition healthOk :: "Player \<Rightarrow> bool" where
  "healthOk p \<longleftrightarrow> 0 \<le> health p \<and> health p \<le> MAX_HEALTH \<and> (isDead p \<longleftrightarrow> health p = 0)"

subsection \<open>Frames: what a phase of the tick leaves alone\<close>

text \<open>
  \<open>shotFrame g\<close>: the observation \<open>g\<close> of a player does not depend on the fields a shot
  can write (of the shooter or of the target). \<open>shooterFrame g\<close>: the same for the fields
  written on the shooter only. \<open>inputFrame g\<close>: the same for the fields written by
  \<open>processInput\<close> and \<open>saveHistory\<close>. \<open>shotStable P\<close> and \<open>tickStable P\<close>: the
  predicate \<open>P\<close> on a player survives those writes.
\<close>

definition shotFrame :: "(Player \<Rightarrow> 'a) \<Rightarrow> bool" where
  "shotFrame g \<longleftrightarrow>
     (\<forall>p v. g (p\<lparr>lastShootTime := v\<rparr>) = g p) \<and>
     (\<forall>p v. g (p\<lparr>health := v\<rparr>) = g p) \<and>
     (\<forall>p v. g (p\<lparr>isDead := v\<rparr>) = g p) \<and>
     (\<forall>p v. g (p\<lparr>deaths := v\<rparr>) = g p) \<and>
     (\<forall>p v. g (p\<lparr>respawnTime := v\<rparr>) = g p) \<and>
     (\<forall>p v. g (p\<lparr>score := v\<rparr>) = g p) \<and>
     (\<forall>p v. g (p\<lparr>kills := v\<rparr>) = g p)"

definition shooterFrame :: "(Player \<Rightarrow> 'a) \<Rightarrow> bool" where
  "shooterFrame g \<longleftrightarrow>
     (\<forall>p v. g (p\<lparr>lastShootTime := v\<rparr>) = g p) \<and>
     (\<forall>p v. g (p\<lparr>score := v\<rparr>) = g p) \<and>
     (\<forall>p v. g (p\<lparr>kills := v\<rparr>) = g p)"

definition inputFrame :: "(Player \<Rightarrow> 'a) \<Rightarrow> bool" where
  "inputFrame g \<longleftrightarrow>
     (\<forall>p v. g (p\<lparr>yaw := v\<rparr>) = g p) \<and> (\<forall>p v. g (p\<lparr>pitch := v\<rparr>) = g p) \<and>
     (\<forall>p v. g (p\<lparr>weapon := v\<rparr>) = g p) \<and> (\<forall>p v. g (p\<lparr>isShooting := v\<rparr>) = g p) \<and>
     (\<forall>p v. g (p\<lparr>vx := v\<rparr>) = g p) \<and> (\<forall>p v. g (p\<lparr>vy := v\<rparr>) = g p) \<and>
     (\<forall>p v. g (p\<lparr>vz := v\<rparr>) = g p) \<and> (\<forall>p v. g (p\<lparr>grounded := v\<rparr>) = g p) \<and>
     (\<forall>p v. g (p\<lparr>px := v\<rparr>) = g p) \<and> (\<forall>p v. g (p\<lparr>py := v\<rparr>) = g p) \<and>
     (\<forall>p v. g (p\<lparr>pz := v\<rparr>) = g p) \<and> (\<forall>p v. g (p\<lparr>lastProcessedInput := v\<rparr>) = g p) \<and>
     (\<forall>p v. g (p\<lparr>historyX := v\<rparr>) = g p) \<and> (\<forall>p v. g (p\<lparr>historyY := v\<rparr>) = g p) \<and>
     (\<forall>p v. g (p\<lparr>historyZ := v\<rparr>) = g p) \<and> (\<forall>p v. g (p\<lparr>historyTime := v\<rparr>) = g p) \<and>
     (\<forall>p v. g (p\<lparr>historyHead := v\<rparr>) = g p) \<and> (\<forall>p v. g (p\<lparr>historySize := v\<rparr>) = g p)"

definition shotStable :: "(Player \<Rightarrow> bool) \<Rightarrow> bool" where
  "shotStable P \<longleftrightarrow>
     (\<forall>p. P p \<longrightarrow>
        (\<forall>v. P (p\<lparr>lastShootTime := v\<rparr>)) \<and> (\<forall>v. P (p\<lparr>score := v\<rparr>)) \<and>
        (\<forall>v. P (p\<lparr>kills := v\<rparr>)) \<and> (\<forall>v. P (p\<lparr>respawnTime := v\<rparr>)) \<and>
        (\<forall>d a. 0 \<le> d \<longrightarrow> P (snd (takeDamage p d a))))"

definition tickStable :: "(Player \<Rightarrow> bool) \<Rightarrow> bool" where
  "tickStable P \<longleftrightarrow>
     shotStable P \<and>
     (\<forall>p. P p \<longrightarrow> (\<forall>input dt obs. P (processInput p input dt obs)) \<and>
                    (\<forall>t. P (saveHistory p t)) \<and> (\<forall>v. P (p\<lparr>pendingInputs := v\<rparr>)))"

subsection \<open>What a snapshot acknowledges\<close>

text \<open>
  \<open>aliveAtDrain w r i\<close>: in the tick that starts in room \<open>r\<close>, the player at position
  \<open>i\<close> is alive when the input loop reaches its queue, that is after the queues of the
  players before it have been processed. \<open>acknowledged r\<close>: for each player that has a
  connection, the connection and the value its snapshot carries as lastProcessedInput.
  \<open>snapshotFits r\<close>: the snapshot of the room fits the scratch buffer.
\<close>

definition aliveAtDrain :: "world \<Rightarrow> Room \<Rightarrow> nat \<Rightarrow> bool" where
  "aliveAtDrain w r i =
     (\<not> isDead (players (snd (fold drainPlayer [0..<i]
                                 (w, r\<lparr>tick := tick r + 1, snapshotHits := []\<rparr>))) ! i))"

definition acknowledged :: "Room \<Rightarrow> (nat \<times> nat) list" where
  "acknowledged r =
     concat (map (\<lambda>p. case ws p of None \<Rightarrow> []
                       | Some conn \<Rightarrow> [(conn, lastProcessedInput p mod 2 ^ 32)]) (players r))"

definition snapshotFits :: "Room \<Rightarrow> bool" where
  "snapshotFits r \<longleftrightarrow>
     19 + 40 * length (players r) + 6 * length (snapshotHits r) \<le> SNAPSHOT_BUFFER_SIZE"

subsection \<open>Rays and spheres\<close>

text \<open>
  \<open>rayPoint origin direction t\<close> is the point of the ray at parameter \<open>t\<close>;
  \<open>firstCrossing\<close> says that \<open>t\<close> is the least parameter, of either sign, at which the
  line meets the sphere, that is the smaller root of the quadratic.
  \<open>smallestNonNegRoot\<close> is the wording of the specification: the least parameter that is
  not negative at which the ray meets the sphere.
\<close>

definition rayPoint :: "Vec3 \<Rightarrow> Vec3 \<Rightarrow> real \<Rightarrow> Vec3" where
  "rayPoint origin direction t =
     \<lparr>v_x = v_x origin + t * v_x direction, v_y = v_y origin + t * v_y direction,
      v_z = v_z origin + t * v_z direction\<rparr>"

definition distSq :: "Vec3 \<Rightarrow> Vec3 \<Rightarrow> real" where
  "distSq p q = (v_x p - v_x q) * (v_x p - v_x q) + (v_y p - v_y q) * (v_y p - v_y q)
                + (v_z p - v_z q) * (v_z p - v_z q)"

definition onSphere :: "Vec3 \<Rightarrow> real \<Rightarrow> Vec3 \<Rightarrow> bool" where
  "onSphere center radius p \<longleftrightarrow> distSq p center = radius * radius"

definition normSq :: "Vec3 \<Rightarrow> real" where
  "normSq d = v_x d * v_x d + v_y d * v_y d + v_z d * v_z d"

definition firstCrossing :: "Vec3 \<Rightarrow> Vec3 \<Rightarrow> Vec3 \<Rightarrow> real \<Rightarrow> real \<Rightarrow> bool" where
  "firstCrossing origin direction center radius t \<longleftrightarrow>
     onSphere center radius (rayPoint origin direction t) \<and>
     (\<forall>t'. onSphere center radius (rayPoint origin direction t') \<longrightarrow> t \<le> t')"

definition smallestNonNegRoot :: "Vec3 \<Rightarrow> Vec3 \<Rightarrow> Vec3 \<Rightarrow> real \<Rightarrow> real \<Rightarrow> bool" where
  "smallestNonNegRoot origin direction center radius t \<longleftrightarrow>
     0 \<le> t \<and> onSphere center radius (rayPoint origin direction t) \<and>
     (\<forall>t'. 0 \<le> t' \<and> onSphere center radius (rayPoint origin direction t') \<longrightarrow> t \<le> t')"


subsection \<open>The history ring, newest sample first\<close>

text \<open>
  \<open>ringIndex p k\<close> is the slot \<open>k + 1\<close> steps behind \<open>historyHead\<close>, so that sample 0 is
  the newest and sample \<open>historySize p - 1\<close> the oldest. \<open>bracketAt p t k\<close>: the adjacent
  samples \<open>k + 1\<close> and \<open>k\<close> bracket the time \<open>t\<close>. \<open>between p k t\<close>: the linear
  interpolation between those two samples at time \<open>t\<close>.
\<close>

definition ringIndex :: "Player \<Rightarrow> nat \<Rightarrow> nat" where
  "ringIndex p k = (prevIndex ^^ Suc k) (historyHead p)"

definition sampleTime :: "Player \<Rightarrow> nat \<Rightarrow> real" where
  "sampleTime p k = historyTime p ! ringIndex p k"

definition samplePos :: "Player \<Rightarrow> nat \<Rightarrow> Vec3" where
  "samplePos p k = slotAt p (ringIndex p k)"

definition lerp :: "Vec3 \<Rightarrow> Vec3 \<Rightarrow> real \<Rightarrow> Vec3" where
  "lerp a b l =
     \<lparr>v_x = v_x a + (v_x b - v_x a) * l, v_y = v_y a + (v_y b - v_y a) * l,
      v_z = v_z a + (v_z b - v_z a) * l\<rparr>"

definition timesOrdered :: "Player \<Rightarrow> bool" where
  "timesOrdered p \<longleftrightarrow> (\<forall>k. Suc k < historySize p \<longrightarrow> sampleTime p (Suc k) \<le> sampleTime p k)"

definition bracketAt :: "Player \<Rightarrow> real \<Rightarrow> nat \<Rightarrow> bool" where
  "bracketAt p t k \<longleftrightarrow> sampleTime p (Suc k) \<le> t \<and> t \<le> sampleTime p k"

definition between :: "Player \<Rightarrow> nat \<Rightarrow> real \<Rightarrow> Vec3" where
  "between p k t =
     lerp (samplePos p (Suc k)) (samplePos p k)
       ((t - sampleTime p (Suc k)) / (sampleTime p k - sampleTime p (Suc k)))"


subsection \<open>What a message did\<close>

text \<open>
  \<open>outcome\<close> keeps of the result of the \<open>message\<close> callback the exception, or the names
  of the players of every room, the socket's user data and what was done on the socket.
\<close>

definition outcome ::
  "js_error + (world \<times> Room list \<times> SocketData \<times> action list)
     \<Rightarrow> js_error + (8 word list list list \<times> SocketData \<times> action list)" where
  "outcome res =
     (case res of
        Inl e \<Rightarrow> Inl e
      | Inr (w, rooms, d, acts) \<Rightarrow> Inr (map (\<lambda>r. map name (players r)) rooms, d, acts))"


section \<open>Concrete scenarios\<close>

definition world0 :: world where
  "world0 = \<lparr>clock = (\<lambda>n. 1000), random = (\<lambda>n. 3 / 4)\<rparr>"

definition input7 :: InputData where
  "input7 = \<lparr>seq = 7, forward = True, backward = False, left = False, right = False,
              jump = False, sprint = False, sneak = False, shoot = True,
              i_weapon = 0, i_yaw = 0, i_pitch = 0, timestamp = 990\<rparr>"

text \<open>A player that joined on connection 7, was killed, and then sent its first input.\<close>

definition deadPlayer :: Player where
  "deadPlayer = (newPlayer 1 [] 7)\<lparr>health := 0, isDead := True, respawnTime := 2500,
                                   deaths := 1, pendingInputs := [input7]\<rparr>"

definition roomD :: Room where
  "roomD = \<lparr>rid = Lobby, maxPlayers = 16, players = [deadPlayer],
            gameMode = \<lparr>scoreLimit = 0, timeLimit = 0, startTime = 0\<rparr>,
            obstacles = [], tick = 0, running = True, snapshotHits = [], tickRate = 60,
            nextPlayerId = 2\<rparr>"

text \<open>A player holding the pistol that fired at server time 700, alone in a room.\<close>

definition alice :: Player where
  "alice = (newPlayer 1 [] 7)\<lparr>isShooting := True, lastShootTime := 700\<rparr>"

definition roomA :: Room where
  "roomA = roomD\<lparr>players := [alice]\<rparr>"

definition holdFire :: "Player \<Rightarrow> Player" where
  "holdFire p = processInput p input7 (1 / 60) []"

text \<open>The same dead player, its queue empty and its respawn due at server time 900.\<close>

definition roomR :: Room where
  "roomR = roomD\<lparr>players := [deadPlayer\<lparr>respawnTime := 900, pendingInputs := []\<rparr>]\<rparr>"

text \<open>A ray along the z axis and a sphere ten units ahead.\<close>

definition rayO :: Vec3 where "rayO = \<lparr>v_x = 0, v_y = 0, v_z = 0\<rparr>"
definition rayD :: Vec3 where "rayD = \<lparr>v_x = 0, v_y = 0, v_z = 1\<rparr>"
definition sphereC :: Vec3 where "sphereC = \<lparr>v_x = 0, v_y = 0, v_z = 10\<rparr>"

text \<open>A player with three history samples, written at times 100, 200 and 300.\<close>

definition walker :: Player where
  "walker =
     (newPlayer 2 [] 8)
       \<lparr>px := 4, pz := 8,
        historyX := (replicate HISTORY_CAPACITY 0)[0 := 0, 1 := 2, 2 := 4],
        historyZ := (replicate HISTORY_CAPACITY 0)[0 := 0, 1 := 4, 2 := 8],
        historyTime := (replicate HISTORY_CAPACITY 0)[0 := 100, 1 := 200, 2 := 300],
        historyHead := 3, historySize := 3\<rparr>"

text \<open>
  One player aiming level along the z axis at another ten units ahead, whose head centre is
  at the height of the shooter's eye, with a wall between them (scenario S3).
\<close>

definition ann :: Player where
  "ann = (newPlayer 1 [] 7)\<lparr>weapon := 2, isShooting := True\<rparr>"

definition bob :: Player where
  "bob = (newPlayer 2 [] 8)
           \<lparr>py := 1 / 10, pz := 10,
            historyX := (replicate HISTORY_CAPACITY 0)[0 := 0],
            historyY := (replicate HISTORY_CAPACITY 0)[0 := 1 / 10],
            historyZ := (replicate HISTORY_CAPACITY 0)[0 := 10],
            historyTime := (replicate HISTORY_CAPACITY 0)[0 := 900],
            historyHead := 1, historySize := 1\<rparr>"

definition wall :: Obstacle where
  "wall = \<lparr>o_x = 0, o_z = 5, width = 4, height = 5, depth = 1\<rparr>"

definition roomS3 :: Room where
  "roomS3 = roomD\<lparr>players := [ann, bob], obstacles := [wall]\<rparr>"

definition rifle :: WeaponConfig where
  "rifle = \<lparr>w_damage = 35, fireRate = 150, range = 150, spread = 1 / 100, bulletCount = 1\<rparr>"

definition eye :: Vec3 where "eye = \<lparr>v_x = 0, v_y = 16 / 10, v_z = 0\<rparr>"

text \<open>The default configuration, and the user data of a joined and of a new socket.\<close>

definition cfg0 :: Config where
  "cfg0 = \<lparr>TICK_RATE = 60, MAX_PLAYERS_PER_ROOM = 16, MAP_SEED = 12345\<rparr>"

definition noFloat :: "8 word list \<Rightarrow> real" where
  "noFloat bytes = 0"

definition sockA :: SocketData where
  "sockA = \<lparr>playerId = 1, roomId = Lobby\<rparr>"

definition sockNew :: SocketData where
  "sockNew = \<lparr>playerId = 0, roomId = NoRoom\<rparr>"

section \<open>Properties of the player operations\<close>


lemma canShoot_cases:
  "canShoot p t = (True, p\<lparr>lastShootTime := t\<rparr>) \<and> \<not> isDead p \<and> isShooting p \<and>
     (\<exists>c. weaponAt (weapon p) = Some c \<and> t - lastShootTime p \<ge> fireRate c)
   \<or> canShoot p t = (False, p)"
  by (auto simp: canShoot_def split: option.splits)

lemma canShoot_False_unchanged: "\<not> fst (canShoot p t) \<Longrightarrow> snd (canShoot p t) = p"
  using canShoot_cases[of p t] by auto

lemma shots_gaps:
  "\<forall>(f, t) \<in> set evs. \<forall>q. lastShootTime (f q) = lastShootTime q \<Longrightarrow>
   gaps_ok (lastShootTime p) (shots p evs)"
proof (induction evs arbitrary: p)
  case Nil
  then show ?case by simp
next
  case (Cons ev evs)
  obtain f t where ev: "ev = (f, t)" by (cases ev)
  from Cons.prems ev have fr: "lastShootTime (f p) = lastShootTime p" by simp
  from Cons.prems have rest: "\<forall>(f, t) \<in> set evs. \<forall>q. lastShootTime (f q) = lastShootTime q"
    by simp
  from canShoot_cases[of "f p" t] show ?case
  proof
    assume a: "canShoot (f p) t = (True, (f p)\<lparr>lastShootTime := t\<rparr>) \<and> \<not> isDead (f p) \<and> isShooting (f p) \<and>
     (\<exists>c. weaponAt (weapon (f p)) = Some c \<and> t - lastShootTime (f p) \<ge> fireRate c)"
    then obtain c where c: "weaponAt (weapon (f p)) = Some c" "t - lastShootTime (f p) \<ge> fireRate c"
      by blast
    have "gaps_ok (lastShootTime ((f p)\<lparr>lastShootTime := t\<rparr>)) (shots ((f p)\<lparr>lastShootTime := t\<rparr>) evs)"
      by (rule Cons.IH[OF rest])
    with a c fr ev show ?thesis by (simp add: Let_def)
  next
    assume a: "canShoot (f p) t = (False, f p)"
    have "gaps_ok (lastShootTime (f p)) (shots (f p) evs)" by (rule Cons.IH[OF rest])
    with a fr ev show ?thesis by (simp add: Let_def)
  qed
qed

lemma takeDamage_dead: "isDead p \<Longrightarrow> takeDamage p d a = (False, p)"
  by (simp add: takeDamage_def)

lemma takeDamage_alive:
  "\<not> isDead p \<Longrightarrow> takeDamage p d a =
     (if health p \<le> d then (True, p\<lparr>health := 0, isDead := True, deaths := deaths p + 1\<rparr>)
      else (False, p\<lparr>health := health p - d\<rparr>))"
  by (simp add: takeDamage_def Let_def)

lemma takeDamages_dead: "isDead p \<Longrightarrow> takeDamages p ds a = (replicate (length ds) False, p)"
  by (induction ds) (simp_all add: takeDamage_dead)

lemma takeDamages_count:
  "length (filter id (fst (takeDamages p ds a))) \<le> 1 \<and>
   deaths (snd (takeDamages p ds a)) = deaths p + int (length (filter id (fst (takeDamages p ds a))))"
proof (induction ds arbitrary: p)
  case Nil
  then show ?case by simp
next
  case (Cons d ds)
  show ?case
  proof (cases "isDead p")
    case True
    then show ?thesis by (simp add: takeDamages_dead del: takeDamages.simps)
  next
    case False
    show ?thesis
    proof (cases "health p \<le> d")
      case True
      let ?q = "p\<lparr>health := 0, isDead := True, deaths := deaths p + 1\<rparr>"
      have "takeDamages ?q ds a = (replicate (length ds) False, ?q)"
        by (rule takeDamages_dead) simp
      with False True show ?thesis by (simp add: takeDamage_alive)
    next
      case h: False
      with False Cons.IH[of "p\<lparr>health := health p - d\<rparr>"] show ?thesis
        by (simp add: takeDamage_alive split_beta)
    qed
  qed
qed

lemma takeDamage_props:
  assumes "0 \<le> d" "0 \<le> health p" "health p \<le> MAX_HEALTH"
  shows "0 \<le> health (snd (takeDamage p d a)) \<and> health (snd (takeDamage p d a)) \<le> MAX_HEALTH"
  using assms by (cases "isDead p") (auto simp: takeDamage_dead takeDamage_alive MAX_HEALTH_def)

lemma processInput_dead: "isDead p \<Longrightarrow> processInput p input dt obs = p"
  by (simp add: processInput_def)

lemma canShoot_dead: "isDead p \<Longrightarrow> canShoot p t = (False, p)"
  by (simp add: canShoot_def)

section \<open>How a tick changes the players\<close>


lemma shotFrame_canShoot: "shotFrame g \<Longrightarrow> g (snd (canShoot p t)) = g p"
  by (auto simp: shotFrame_def canShoot_def split: option.splits)

lemma shotFrame_takeDamage: "shotFrame g \<Longrightarrow> g (snd (takeDamage p d a)) = g p"
  by (auto simp: shotFrame_def takeDamage_def Let_def)

lemma shotFrame_onPlayerKill: "shotFrame g \<Longrightarrow> g (onPlayerKill p hs) = g p"
  by (auto simp: shotFrame_def onPlayerKill_def)

lemma shotFrame_onPlayerDeath: "shotFrame g \<Longrightarrow> g (snd (onPlayerDeath w p)) = g p"
  by (auto simp: shotFrame_def onPlayerDeath_def Date_now_def)

lemma map_update_same:
  assumes "g v = g (xs ! i)"
  shows "map g (xs[i := v]) = map g xs"
proof (cases "i < length xs")
  case True
  with assms have "(map g xs)[i := g v] = map g xs"
    by (metis list_update_id nth_map)
  then show ?thesis by (simp add: map_update)
next
  case False
  then have "xs[i := v] = xs" by (simp add: list_update_beyond)
  then show ?thesis by simp
qed

lemma nth_update_stable:
  assumes "P (xs ! j)" and "P (xs ! i) \<Longrightarrow> P v"
  shows "P (xs[i := v] ! j)"
proof (cases "i < length xs")
  case True
  with assms show ?thesis by (cases "i = j") simp_all
next
  case False
  then have "xs[i := v] = xs" by (simp add: list_update_beyond)
  with assms show ?thesis by simp
qed

lemma applyDamage_players:
  "players (snd (applyDamage w r si wpn ti hs)) =
     (let tk = takeDamage (players r ! ti) (if hs then w_damage wpn * 2 else w_damage wpn)
                 (pid (players r ! si));
          ps1 = (players r)[ti := snd tk];
          ps2 = ps1[si := onPlayerKill (ps1 ! si) hs]
      in if fst tk then ps2[ti := snd (onPlayerDeath w (ps2 ! ti))] else ps1)"
  by (simp add: applyDamage_def Let_def split_beta)

lemma applyDamage_frame:
  assumes "shotFrame g"
  shows "map g (players (snd (applyDamage w r si wpn ti hs))) = map g (players r)"
proof -
  have k: "\<And>p hs. g (onPlayerKill p hs) = g p" using assms by (rule shotFrame_onPlayerKill)
  have d: "\<And>w p. g (snd (onPlayerDeath w p)) = g p" using assms by (rule shotFrame_onPlayerDeath)
  have t: "\<And>p d a. g (snd (takeDamage p d a)) = g p" using assms by (rule shotFrame_takeDamage)
  show ?thesis
    by (simp add: applyDamage_players Let_def map_update_same k d t)
qed

lemma resolveBullet_frame:
  "shotFrame g \<Longrightarrow>
   map g (players (snd (resolveBullet w r si wpn origin direction t))) = map g (players r)"
  by (simp add: resolveBullet_def Let_def split_beta applyDamage_frame split: option.splits)

lemma fireBullet_frame:
  "shotFrame g \<Longrightarrow> map g (players (snd (fireBullet w r si wpn t))) = map g (players r)"
  by (simp add: fireBullet_def Let_def split_beta resolveBullet_frame)

lemma fireBullets_frame:
  "shotFrame g \<Longrightarrow> map g (players (snd (fireBullets n w r si wpn t))) = map g (players r)"
proof (induction n arbitrary: w r)
  case 0
  then show ?case by simp
next
  case (Suc n)
  obtain w1 r1 where f: "fireBullet w r si wpn t = (w1, r1)" by (cases "fireBullet w r si wpn t")
  with fireBullet_frame[OF Suc.prems, of w r si wpn t]
  have "map g (players r1) = map g (players r)" by simp
  with Suc.IH[OF Suc.prems, of w1 r1] f show ?case by simp
qed

lemma handleShoot_frame:
  assumes "shotFrame g"
  shows "map g (players (snd (handleShoot w r si t))) = map g (players r)"
proof -
  have c: "\<And>p t. g (snd (canShoot p t)) = g p" using assms by (rule shotFrame_canShoot)
  show ?thesis
    by (simp add: handleShoot_def Let_def split_beta fireBullets_frame[OF assms]
        map_update_same c split: option.splits)
qed

lemma shotStable_canShoot: "shotStable P \<Longrightarrow> P p \<Longrightarrow> P (snd (canShoot p t))"
  by (auto simp: shotStable_def canShoot_def split: option.splits)

lemma shotStable_onPlayerKill: "shotStable P \<Longrightarrow> P p \<Longrightarrow> P (onPlayerKill p hs)"
  by (simp add: shotStable_def onPlayerKill_def)

lemma shotStable_onPlayerDeath: "shotStable P \<Longrightarrow> P p \<Longrightarrow> P (snd (onPlayerDeath w p))"
  by (simp add: shotStable_def onPlayerDeath_def Date_now_def)

lemma shotStable_takeDamage:
  "shotStable P \<Longrightarrow> P p \<Longrightarrow> 0 \<le> d \<Longrightarrow> P (snd (takeDamage p d a))"
  by (simp add: shotStable_def)

lemma applyDamage_stable:
  assumes st: "shotStable P" and d: "0 \<le> w_damage wpn" and p: "P (players r ! j)"
  shows "P (players (snd (applyDamage w r si wpn ti hs)) ! j)"
proof -
  define dmg where "dmg = (if hs then w_damage wpn * 2 else w_damage wpn)"
  define tk where "tk = takeDamage (players r ! ti) dmg (pid (players r ! si))"
  define ps1 where "ps1 = (players r)[ti := snd tk]"
  define ps2 where "ps2 = ps1[si := onPlayerKill (ps1 ! si) hs]"
  define ps3 where "ps3 = ps2[ti := snd (onPlayerDeath w (ps2 ! ti))]"
  have d0: "0 \<le> dmg" using d by (simp add: dmg_def)
  have p1: "P (ps1 ! j)"
    unfolding ps1_def tk_def using p
    by (rule nth_update_stable) (rule shotStable_takeDamage[OF st _ d0])
  have p2: "P (ps2 ! j)"
    unfolding ps2_def using p1
    by (rule nth_update_stable) (rule shotStable_onPlayerKill[OF st])
  have p3: "P (ps3 ! j)"
    unfolding ps3_def using p2
    by (rule nth_update_stable) (rule shotStable_onPlayerDeath[OF st])
  have "players (snd (applyDamage w r si wpn ti hs)) = (if fst tk then ps3 else ps1)"
    by (simp add: applyDamage_players Let_def ps3_def ps2_def ps1_def tk_def dmg_def)
  with p1 p3 show ?thesis by simp
qed

lemma resolveBullet_stable:
  "shotStable P \<Longrightarrow> 0 \<le> w_damage wpn \<Longrightarrow> P (players r ! j) \<Longrightarrow>
   P (players (snd (resolveBullet w r si wpn origin direction t)) ! j)"
  by (simp add: resolveBullet_def Let_def split_beta applyDamage_stable split: option.splits)

lemma fireBullet_stable:
  "shotStable P \<Longrightarrow> 0 \<le> w_damage wpn \<Longrightarrow> P (players r ! j) \<Longrightarrow>
   P (players (snd (fireBullet w r si wpn t)) ! j)"
  by (simp add: fireBullet_def Let_def split_beta resolveBullet_stable)

lemma fireBullets_stable:
  "shotStable P \<Longrightarrow> 0 \<le> w_damage wpn \<Longrightarrow> P (players r ! j) \<Longrightarrow>
   P (players (snd (fireBullets n w r si wpn t)) ! j)"
proof (induction n arbitrary: w r)
  case 0
  then show ?case by simp
next
  case (Suc n)
  obtain w1 r1 where f: "fireBullet w r si wpn t = (w1, r1)" by (cases "fireBullet w r si wpn t")
  with fireBullet_stable[OF Suc.prems, of w si t]
  have "P (players r1 ! j)" by simp
  with Suc.IH[OF Suc.prems(1,2), of r1 w1] f show ?case by simp
qed

lemma weaponAt_damage: "weaponAt i = Some c \<Longrightarrow> 0 \<le> w_damage c"
  by (auto simp: weaponAt_def WEAPONS_def nth_Cons' split: if_splits)

lemma handleShoot_stable:
  assumes st: "shotStable P" and p: "P (players r ! j)"
  shows "P (players (snd (handleShoot w r si t)) ! j)"
proof -
  define r1 where "r1 = r\<lparr>players := (players r)[si := snd (canShoot (players r ! si) (fst (Date_now w)))]\<rparr>"
  have q: "P (players r1 ! j)"
    unfolding r1_def using p by simp (rule nth_update_stable, assumption, rule shotStable_canShoot[OF st])
  have fb: "\<And>n w' c. weaponAt (weapon (snd (canShoot (players r ! si) (fst (Date_now w))))) = Some c
      \<Longrightarrow> P (players (snd (fireBullets n w' r1 si c t)) ! j)"
    using q by (intro fireBullets_stable[OF st]) (auto dest: weaponAt_damage)
  show ?thesis
    using q fb unfolding handleShoot_def Let_def split_beta r1_def[symmetric]
    by (simp split: option.splits del: fireBullets.simps)
qed

lemma scanTarget_fst:
  "fst (scanTarget sh origin d t wr k target st) = Some ti \<Longrightarrow>
   fst st = Some ti \<or> (ti = k \<and> pid target \<noteq> pid sh \<and> \<not> isDead target)"
  by (auto simp: scanTarget_def split: prod.splits option.splits if_splits)

lemma scanTargets_hit:
  "fst (scanTargets sh origin d t wr ts k st) = Some ti \<Longrightarrow>
   fst st = Some ti \<or>
   (k \<le> ti \<and> ti < k + length ts \<and> pid (ts ! (ti - k)) \<noteq> pid sh \<and> \<not> isDead (ts ! (ti - k)))"
proof (induction ts arbitrary: k st)
  case Nil
  then show ?case by simp
next
  case (Cons target rest)
  from Cons.prems have "fst (scanTargets sh origin d t wr rest (Suc k)
      (scanTarget sh origin d t wr k target st)) = Some ti" by simp
  from Cons.IH[OF this] show ?case
  proof
    assume "fst (scanTarget sh origin d t wr k target st) = Some ti"
    from scanTarget_fst[OF this] show ?thesis by auto
  next
    assume a: "Suc k \<le> ti \<and> ti < Suc k + length rest \<and>
      pid (rest ! (ti - Suc k)) \<noteq> pid sh \<and> \<not> isDead (rest ! (ti - Suc k))"
    then have "(target # rest) ! (ti - k) = rest ! (ti - Suc k)"
      by (simp add: nth_Cons' Suc_diff_le)
    with a show ?thesis by simp
  qed
qed

lemma shooterFrame_canShoot: "shooterFrame g \<Longrightarrow> g (snd (canShoot p t)) = g p"
  by (auto simp: shooterFrame_def canShoot_def split: option.splits)

lemma shooterFrame_onPlayerKill: "shooterFrame g \<Longrightarrow> g (onPlayerKill p hs) = g p"
  by (auto simp: shooterFrame_def onPlayerKill_def)

lemma nth_update_frame:
  assumes "g v = g (xs ! i)"
  shows "g (xs[i := v] ! j) = g (xs ! j)"
  using assms nth_update_stable[of "\<lambda>p. g p = g (xs ! j)" xs j i v] by auto

lemma applyDamage_shooter:
  assumes "shooterFrame g" and "ti \<noteq> si"
  shows "g (players (snd (applyDamage w r si wpn ti hs)) ! si) = g (players r ! si)"
proof -
  define dmg where "dmg = (if hs then w_damage wpn * 2 else w_damage wpn)"
  define tk where "tk = takeDamage (players r ! ti) dmg (pid (players r ! si))"
  define ps1 where "ps1 = (players r)[ti := snd tk]"
  define ps2 where "ps2 = ps1[si := onPlayerKill (ps1 ! si) hs]"
  define ps3 where "ps3 = ps2[ti := snd (onPlayerDeath w (ps2 ! ti))]"
  have p1: "ps1 ! si = players r ! si" using assms(2) by (simp add: ps1_def)
  have p2: "g (ps2 ! si) = g (ps1 ! si)"
    unfolding ps2_def by (rule nth_update_frame) (rule shooterFrame_onPlayerKill[OF assms(1)])
  have p3: "ps3 ! si = ps2 ! si" using assms(2) by (simp add: ps3_def)
  have "players (snd (applyDamage w r si wpn ti hs)) = (if fst tk then ps3 else ps1)"
    by (simp add: applyDamage_players Let_def ps3_def ps2_def ps1_def tk_def dmg_def)
  with p1 p2 p3 show ?thesis by simp
qed

lemma resolveBullet_shooter:
  assumes "shooterFrame g"
  shows "g (players (snd (resolveBullet w r si wpn origin direction t)) ! si) = g (players r ! si)"
proof -
  define sc where "sc = scanTargets (players r ! si) origin direction t (range wpn) (players r) 0
               (None, range wpn, False)"
  have ne: "ti \<noteq> si" if "fst sc = Some ti" for ti
    using scanTargets_hit[of "players r ! si" origin direction t "range wpn" "players r" 0
        "(None, range wpn, False)" ti] that
    by (auto simp: sc_def)
  show ?thesis
    unfolding resolveBullet_def Let_def split_beta sc_def[symmetric]
    using ne by (auto split: option.splits if_splits intro!: applyDamage_shooter[OF assms])
qed

lemma fireBullet_shooter:
  "shooterFrame g \<Longrightarrow> g (players (snd (fireBullet w r si wpn t)) ! si) = g (players r ! si)"
  by (simp add: fireBullet_def Let_def split_beta resolveBullet_shooter)

lemma fireBullets_shooter:
  "shooterFrame g \<Longrightarrow> g (players (snd (fireBullets n w r si wpn t)) ! si) = g (players r ! si)"
proof (induction n arbitrary: w r)
  case 0
  then show ?case by simp
next
  case (Suc n)
  obtain w1 r1 where f: "fireBullet w r si wpn t = (w1, r1)" by (cases "fireBullet w r si wpn t")
  with fireBullet_shooter[OF Suc.prems, of w r si wpn t]
  have "g (players r1 ! si) = g (players r ! si)" by simp
  with Suc.IH[OF Suc.prems, of w1 r1] f show ?case by simp
qed

lemma handleShoot_shooter:
  assumes "shooterFrame g"
  shows "g (players (snd (handleShoot w r si t)) ! si) = g (players r ! si)"
proof -
  have c: "g ((players r)[si := snd (canShoot (players r ! si) (fst (Date_now w)))] ! si)
           = g (players r ! si)"
    by (rule nth_update_frame) (rule shooterFrame_canShoot[OF assms])
  show ?thesis
    unfolding handleShoot_def Let_def split_beta
    using c by (simp add: fireBullets_shooter[OF assms] split: option.splits del: fireBullets.simps)
qed

lemma handleShoot_length: "length (players (snd (handleShoot w r si t))) = length (players r)"
proof -
  have "shotFrame pid" by (simp add: shotFrame_def)
  from handleShoot_frame[OF this, of w r si t] show ?thesis by (metis length_map)
qed

lemma processInput_lpi:
  "lastProcessedInput (processInput p input dt obs) =
     (if isDead p then lastProcessedInput p else seq input)"
  unfolding processInput_def
  by (cases "isDead p")
     (simp_all add: Let_def split_beta if_distrib[of lastProcessedInput]
        split del: if_split cong: if_cong)

lemma inputFrame_processInput:
  "inputFrame g \<Longrightarrow> g (processInput p input dt obs) = g p"
  unfolding processInput_def inputFrame_def
  by (cases "isDead p")
     (simp_all add: Let_def split_beta if_distrib[of g] split del: if_split cong: if_cong)

lemma inputFrame_saveHistory: "inputFrame g \<Longrightarrow> g (saveHistory p t) = g p"
  unfolding saveHistory_def inputFrame_def
  by (simp add: Let_def if_distrib[of g] split del: if_split cong: if_cong)

lemma inputFrame_isDead: "inputFrame isDead"
  by (simp add: inputFrame_def)

lemma inputFrame_pendingInputs: "inputFrame pendingInputs"
  by (simp add: inputFrame_def)

lemma inputFrame_pid: "inputFrame pid"
  by (simp add: inputFrame_def)

lemma inputFrame_ws: "inputFrame ws"
  by (simp add: inputFrame_def)

lemma shotFrame_lpi: "shotFrame lastProcessedInput"
  by (simp add: shotFrame_def)

lemma shotFrame_pendingInputs: "shotFrame pendingInputs"
  by (simp add: shotFrame_def)

lemma shooterFrame_isDead: "shooterFrame isDead"
  by (simp add: shooterFrame_def)

text \<open>One iteration of the input loop, as a function of the room.\<close>

lemma drainInputs_Cons:
  "drainInputs (input # rest) i w r =
     (let r1 = r\<lparr>players := (players r)[i := processInput (players r ! i) input
                   (1 / real (tickRate r)) (obstacles r)]\<rparr>;
          now = fst (Date_now w);
          st = (if timestamp input < now - MAX_LAG_COMPENSATION then now - MAX_LAG_COMPENSATION
                else timestamp input);
          wr = (if shoot input then handleShoot (snd (Date_now w)) r1 i (if st > now then now else st)
                else (w, r1))
      in drainInputs rest i (fst wr) (snd wr))"
  by (simp add: Let_def split_beta)

lemma drainInputs_length:
  "length (players (snd (drainInputs inputs i w r))) = length (players r)"
proof (induction inputs arbitrary: w r)
  case Nil
  then show ?case by simp
next
  case (Cons input rest)
  show ?case
    unfolding drainInputs_Cons Let_def
    by (simp add: Cons.IH handleShoot_length del: drainInputs.simps)
qed

lemma drainInputs_isDead:
  "isDead (players (snd (drainInputs inputs i w r)) ! i) = isDead (players r ! i)"
proof (induction inputs arbitrary: w r)
  case Nil
  then show ?case by simp
next
  case (Cons input rest)
  have a: "isDead ((players r)[i := processInput (players r ! i) input dt obs] ! i)
        = isDead (players r ! i)" for dt obs
    by (rule nth_update_frame) (rule inputFrame_processInput[OF inputFrame_isDead])
  show ?case
    unfolding drainInputs_Cons Let_def
    by (simp add: Cons.IH handleShoot_shooter[OF shooterFrame_isDead] a del: drainInputs.simps)
qed

lemma drainInputs_lpi:
  assumes "i < length (players r)"
  shows "map lastProcessedInput (players (snd (drainInputs inputs i w r))) =
     (map lastProcessedInput (players r))
       [i := (if isDead (players r ! i) \<or> inputs = [] then lastProcessedInput (players r ! i)
              else seq (last inputs))]"
  using assms
proof (induction inputs arbitrary: w r)
  case Nil
  then have "(map lastProcessedInput (players r))[i := lastProcessedInput (players r ! i)]
      = map lastProcessedInput (players r)"
    by (metis list_update_id nth_map)
  then show ?case by simp
next
  case (Cons input rest)
  define r1 where "r1 = r\<lparr>players := (players r)[i := processInput (players r ! i) input
                   (1 / real (tickRate r)) (obstacles r)]\<rparr>"
  define now where "now = fst (Date_now w)"
  define st where "st = (if timestamp input < now - MAX_LAG_COMPENSATION then now - MAX_LAG_COMPENSATION
                else timestamp input)"
  define wr where "wr = (if shoot input then handleShoot (snd (Date_now w)) r1 i (if st > now then now else st)
                else (w, r1))"
  have step: "drainInputs (input # rest) i w r = drainInputs rest i (fst wr) (snd wr)"
    unfolding drainInputs_Cons Let_def wr_def st_def now_def r1_def by simp
  have m1: "map lastProcessedInput (players r1) = (map lastProcessedInput (players r))
       [i := (if isDead (players r ! i) then lastProcessedInput (players r ! i) else seq input)]"
    by (simp add: r1_def map_update processInput_lpi)
  have d1: "isDead (players r1 ! i) = isDead (players r ! i)"
    unfolding r1_def by (simp add: nth_update_frame inputFrame_processInput[OF inputFrame_isDead])
  have m2: "map lastProcessedInput (players (snd wr)) = map lastProcessedInput (players r1)"
    by (simp add: wr_def handleShoot_frame[OF shotFrame_lpi])
  have d2: "isDead (players (snd wr) ! i) = isDead (players r1 ! i)"
    by (simp add: wr_def handleShoot_shooter[OF shooterFrame_isDead])
  have len: "length (players (snd wr)) = length (players r)"
    using m2 m1 by (metis length_list_update length_map)
  with Cons.prems have i2: "i < length (players (snd wr))" by simp
  have l2: "lastProcessedInput (players (snd wr) ! i) =
      (if isDead (players r ! i) then lastProcessedInput (players r ! i) else seq input)"
  proof -
    have "lastProcessedInput (players (snd wr) ! i) = map lastProcessedInput (players (snd wr)) ! i"
      using i2 by simp
    also have "\<dots> = (if isDead (players r ! i) then lastProcessedInput (players r ! i) else seq input)"
      using Cons.prems by (simp add: m2 m1)
    finally show ?thesis .
  qed
  define old where "old = lastProcessedInput (players r ! i)"
  define dead where "dead = isDead (players r ! i)"
  define L where "L = map lastProcessedInput (players r)"
  have "map lastProcessedInput (players (snd (drainInputs rest i (fst wr) (snd wr)))) =
      (L[i := (if dead then old else seq input)])
        [i := (if dead \<or> rest = [] then (if dead then old else seq input) else seq (last rest))]"
    using Cons.IH[OF i2, of "fst wr"] unfolding m2 m1 d2 d1 l2 L_def dead_def old_def .
  also have "\<dots> = L[i := (if dead \<or> input # rest = [] then old else seq (last (input # rest)))]"
    by (cases dead; cases "rest = []") simp_all
  finally show ?case unfolding step L_def dead_def old_def .
qed

lemma drainInputs_frame:
  assumes "shotFrame g" "inputFrame g"
  shows "map g (players (snd (drainInputs inputs i w r))) = map g (players r)"
proof (induction inputs arbitrary: w r)
  case Nil
  then show ?case by simp
next
  case (Cons input rest)
  show ?case
    unfolding drainInputs_Cons Let_def
    by (simp add: Cons.IH handleShoot_frame[OF assms(1)] map_update_same
          inputFrame_processInput[OF assms(2)] del: drainInputs.simps)
qed

lemma drainInputs_stable:
  assumes "tickStable P"
  shows "P (players r ! j) \<Longrightarrow> P (players (snd (drainInputs inputs i w r)) ! j)"
proof (induction inputs arbitrary: w r)
  case Nil
  then show ?case by simp
next
  case (Cons input rest)
  have st: "shotStable P" using assms by (simp add: tickStable_def)
  define r1 where "r1 = r\<lparr>players := (players r)[i := processInput (players r ! i) input
                   (1 / real (tickRate r)) (obstacles r)]\<rparr>"
  have pi: "P q \<Longrightarrow> P (processInput q input dt obs)" for q dt obs
    using assms by (simp add: tickStable_def)
  have "P ((players r)[i := processInput (players r ! i) input
                   (1 / real (tickRate r)) (obstacles r)] ! j)"
    using Cons.prems by (rule nth_update_stable) (rule pi)
  then have p1: "P (players r1 ! j)" by (simp add: r1_def)
  have p2: "P (players (snd (handleShoot w' r1 i t)) ! j)" for w' t
    using st p1 by (rule handleShoot_stable)
  show ?case
    unfolding drainInputs_Cons Let_def r1_def[symmetric]
    by (rule Cons.IH) (simp add: p1 p2)
qed

lemma drainPlayer_players:
  "players (snd (drainPlayer i (w, r))) =
     (let r1 = snd (drainInputs (pendingInputs (players r ! i)) i w r);
          w1 = fst (drainInputs (pendingInputs (players r ! i)) i w r)
      in (players r1)[i := saveHistory ((players r1 ! i)\<lparr>pendingInputs := []\<rparr>)
                             (fst (Date_now w1))])"
  by (simp add: drainPlayer_def Let_def split_beta)

lemma drainPlayer_stable:
  assumes "tickStable P" "P (players (snd wr) ! j)"
  shows "P (players (snd (drainPlayer i wr)) ! j)"
proof -
  obtain w r where wr: "wr = (w, r)" by (cases wr)
  have "P (players (snd (drainInputs (pendingInputs (players r ! i)) i w r)) ! j)"
    using assms wr by (simp add: drainInputs_stable)
  then have "P ((players (snd (drainInputs (pendingInputs (players r ! i)) i w r)))
      [i := saveHistory
         ((players (snd (drainInputs (pendingInputs (players r ! i)) i w r)) ! i)\<lparr>pendingInputs := []\<rparr>)
         (fst (Date_now (fst (drainInputs (pendingInputs (players r ! i)) i w r))))] ! j)"
    by (rule nth_update_stable) (use assms(1) in \<open>simp add: tickStable_def\<close>)
  then show ?thesis
    unfolding wr drainPlayer_players Let_def .
qed

lemma drainPlayer_frame:
  assumes "shotFrame g" "inputFrame g" "\<And>p v. g (p\<lparr>pendingInputs := v\<rparr>) = g p"
  shows "map g (players (snd (drainPlayer i wr))) = map g (players (snd wr))"
proof -
  obtain w r where wr: "wr = (w, r)" by (cases wr)
  show ?thesis
    unfolding wr drainPlayer_players Let_def
    by (simp add: map_update_same inputFrame_saveHistory[OF assms(2)] assms(3)
          drainInputs_frame[OF assms(1,2)])
qed

lemma drainPlayer_length:
  "length (players (snd (drainPlayer i wr))) = length (players (snd wr))"
proof -
  have "shotFrame pid" by (simp add: shotFrame_def)
  from drainPlayer_frame[OF this inputFrame_pid, of i wr]
  have "map pid (players (snd (drainPlayer i wr))) = map pid (players (snd wr))" by simp
  then show ?thesis by (metis length_map)
qed

lemma drainPlayer_lpi:
  assumes "i < length (players r)"
  shows "map lastProcessedInput (players (snd (drainPlayer i (w, r)))) =
     (map lastProcessedInput (players r))
       [i := (if isDead (players r ! i) \<or> pendingInputs (players r ! i) = []
              then lastProcessedInput (players r ! i)
              else seq (last (pendingInputs (players r ! i))))]"
proof -
  have f: "lastProcessedInput (saveHistory (q\<lparr>pendingInputs := []\<rparr>) t) = lastProcessedInput q" for q t
    by (simp add: saveHistory_def Let_def)
  show ?thesis
    unfolding drainPlayer_players Let_def
    by (simp add: map_update_same f drainInputs_lpi[OF assms])
qed

lemma inputFrame_imp_pending:
  "pendingInputs (saveHistory (q\<lparr>pendingInputs := []\<rparr>) t) = []"
  by (simp add: saveHistory_def Let_def)

lemma drainPlayer_pending:
  "map pendingInputs (players (snd (drainPlayer i (w, r)))) =
     (map pendingInputs (players r))[i := []]"
  unfolding drainPlayer_players Let_def
  by (simp add: map_update inputFrame_imp_pending
       drainInputs_frame[OF shotFrame_pendingInputs inputFrame_pendingInputs])

lemma fold_drain_length:
  "length (players (snd (fold drainPlayer js wr))) = length (players (snd wr))"
  by (induction js arbitrary: wr) (simp_all add: drainPlayer_length)

lemma fold_drain_other:
  assumes "i \<notin> set js" "\<forall>j \<in> set js. j < length (players (snd wr))" "i < length (players (snd wr))"
  shows "lastProcessedInput (players (snd (fold drainPlayer js wr)) ! i)
           = lastProcessedInput (players (snd wr) ! i) \<and>
         pendingInputs (players (snd (fold drainPlayer js wr)) ! i)
           = pendingInputs (players (snd wr) ! i)"
  using assms
proof (induction js arbitrary: wr)
  case Nil
  then show ?case by simp
next
  case (Cons j js)
  obtain w r where wr: "wr = (w, r)" by (cases wr)
  from Cons.prems wr have j: "j < length (players r)" and ij: "i \<noteq> j" and i: "i < length (players r)"
    by auto
  let ?wr1 = "drainPlayer j (w, r)"
  have len: "length (players (snd ?wr1)) = length (players r)"
    by (simp add: drainPlayer_length)
  have "map lastProcessedInput (players (snd ?wr1)) ! i = map lastProcessedInput (players r) ! i"
    using ij by (simp add: drainPlayer_lpi[OF j])
  then have l: "lastProcessedInput (players (snd ?wr1) ! i) = lastProcessedInput (players r ! i)"
    using i len by simp
  have "map pendingInputs (players (snd ?wr1)) ! i = map pendingInputs (players r) ! i"
    using ij by (simp add: drainPlayer_pending)
  then have p: "pendingInputs (players (snd ?wr1) ! i) = pendingInputs (players r ! i)"
    using i len by simp
  have "lastProcessedInput (players (snd (fold drainPlayer js ?wr1)) ! i)
           = lastProcessedInput (players (snd ?wr1) ! i) \<and>
         pendingInputs (players (snd (fold drainPlayer js ?wr1)) ! i)
           = pendingInputs (players (snd ?wr1) ! i)"
    using Cons.prems wr len by (intro Cons.IH) auto
  with l p wr show ?case by simp
qed

lemma drainAll_lpi:
  assumes "i < length (players r)"
  shows "lastProcessedInput (players (snd (drainAll w r)) ! i) =
     (let q = players (snd (fold drainPlayer [0..<i] (w, r))) ! i
      in if \<not> isDead q \<and> pendingInputs (players r ! i) \<noteq> []
         then seq (last (pendingInputs (players r ! i)))
         else lastProcessedInput (players r ! i))"
proof -
  let ?n = "length (players r)"
  let ?X = "fold drainPlayer [0..<i] (w, r)"
  have split: "[0..<?n] = [0..<i] @ i # [Suc i..<?n]"
    using assms by (metis le0 le_add_diff_inverse less_imp_le_nat upt_add_eq_append upt_conv_Cons)
  have lenX: "length (players (snd ?X)) = ?n" by (simp add: fold_drain_length)
  obtain wx rx where X: "?X = (wx, rx)" by (cases ?X)
  with lenX have ix: "i < length (players rx)" using assms by simp
  have before: "lastProcessedInput (players rx ! i) = lastProcessedInput (players r ! i) \<and>
      pendingInputs (players rx ! i) = pendingInputs (players r ! i)"
    using fold_drain_other[of i "[0..<i]" "(w, r)"] assms X by simp
  let ?Y = "drainPlayer i (wx, rx)"
  have lenY: "length (players (snd ?Y)) = ?n" using lenX X by (simp add: drainPlayer_length)
  have "map lastProcessedInput (players (snd ?Y)) ! i =
      (if isDead (players rx ! i) \<or> pendingInputs (players rx ! i) = []
              then lastProcessedInput (players rx ! i)
              else seq (last (pendingInputs (players rx ! i))))"
    using ix by (simp add: drainPlayer_lpi[OF ix])
  then have atY: "lastProcessedInput (players (snd ?Y) ! i) =
      (if isDead (players rx ! i) \<or> pendingInputs (players rx ! i) = []
              then lastProcessedInput (players rx ! i)
              else seq (last (pendingInputs (players rx ! i))))"
    using lenY assms by simp
  have after: "lastProcessedInput (players (snd (fold drainPlayer [Suc i..<?n] ?Y)) ! i)
      = lastProcessedInput (players (snd ?Y) ! i)"
    using fold_drain_other[of i "[Suc i..<?n]" ?Y] lenY assms by simp
  have "drainAll w r = fold drainPlayer [Suc i..<?n] ?Y"
    unfolding drainAll_def by (subst split) (simp add: X)
  with after atY before X show ?thesis by (auto simp: Let_def)
qed

lemma respawnLoop_lpi:
  "map lastProcessedInput (snd (respawnLoop now obs ps w)) = map lastProcessedInput ps"
  by (induction ps arbitrary: w) (simp_all add: Let_def split_beta)

lemma processRespawns_lpi:
  "map lastProcessedInput (players (snd (processRespawns w r))) = map lastProcessedInput (players r)"
  by (simp add: processRespawns_def Let_def split_beta respawnLoop_lpi)

lemma mode_tick_lpi:
  "map lastProcessedInput (snd (mode_tick w ps)) = map lastProcessedInput ps"
  by (simp add: mode_tick_def Let_def split_beta)

lemma spawn_lpi: "lastProcessedInput (snd (spawn w p obs)) = lastProcessedInput p"
  by (simp add: spawn_def Let_def split_beta)

lemma respawnAll_lpi:
  "map lastProcessedInput (snd (respawnAll obs ps w)) = map lastProcessedInput ps"
  by (induction ps arbitrary: w) (simp_all add: Let_def split_beta spawn_lpi)

lemma handleGameEnd_lpi:
  "map lastProcessedInput (players (snd (handleGameEnd w r))) = map lastProcessedInput (players r)"
  by (simp add: handleGameEnd_def Let_def split_beta respawnAll_lpi)

lemma gameTick_lpi:
  "map lastProcessedInput (players (snd (fst (gameTick w r)))) =
   map lastProcessedInput
     (players (snd (drainAll w (r\<lparr>tick := tick r + 1, snapshotHits := []\<rparr>))))"
  by (simp add: gameTick_def Let_def split_beta handleGameEnd_lpi mode_tick_lpi
        processRespawns_lpi)

lemma broadcastLoop_acks:
  "map (\<lambda>cs. (fst cs, snap_lastProcessedInput (snd cs))) (snd (broadcastLoop r ps w)) =
     (if snapshotFits r
      then concat (map (\<lambda>p. case ws p of None \<Rightarrow> []
                          | Some conn \<Rightarrow> [(conn, lastProcessedInput p mod 2 ^ 32)]) ps)
      else [])"
  by (induction ps arbitrary: w)
     (auto simp: Let_def split_beta encodeSnapshot_def snapshotFits_def split: option.splits)

lemma gameTick_acks:
  "map (\<lambda>cs. (fst cs, snap_lastProcessedInput (snd cs))) (snd (gameTick w r)) =
     (if snapshotFits (snd (fst (gameTick w r))) then acknowledged (snd (fst (gameTick w r)))
      else [])"
  by (simp add: gameTick_def Let_def split_beta broadcastSnapshot_def broadcastLoop_acks
        acknowledged_def)

lemma tickStable_isDead: "tickStable isDead"
  by (simp add: tickStable_def shotStable_def takeDamage_dead processInput_dead
        inputFrame_saveHistory[OF inputFrame_isDead])

lemma fold_drain_stable:
  "tickStable P \<Longrightarrow> P (players (snd wr) ! j) \<Longrightarrow>
   P (players (snd (fold drainPlayer js wr)) ! j)"
  by (induction js arbitrary: wr) (simp_all add: drainPlayer_stable)

lemma gameTick_length:
  "length (players (snd (fst (gameTick w r)))) = length (players r)"
proof -
  have "length (map lastProcessedInput (players (snd (fst (gameTick w r))))) =
        length (map lastProcessedInput (players (snd (drainAll w (r\<lparr>tick := tick r + 1, snapshotHits := []\<rparr>)))))"
    by (simp only: gameTick_lpi)
  then show ?thesis by (simp add: drainAll_def fold_drain_length)
qed


section \<open>Health over a tick\<close>


lemma shotStable_healthOk: "shotStable healthOk"
  unfolding shotStable_def
proof (intro allI impI conjI)
  fix p d a assume h: "healthOk p" and d: "(0::int) \<le> d"
  show "healthOk (snd (takeDamage p d a))"
    using h d by (cases "isDead p") (auto simp: takeDamage_dead takeDamage_alive healthOk_def)
qed (simp_all add: healthOk_def)

lemma inputFrame_healthOk: "inputFrame healthOk"
  by (simp add: inputFrame_def healthOk_def)

lemma tickStable_healthOk: "tickStable healthOk"
proof -
  have "healthOk (p\<lparr>pendingInputs := v\<rparr>) = healthOk p" for p v
    by (simp add: healthOk_def)
  then show ?thesis
    unfolding tickStable_def
    using shotStable_healthOk
    by (simp add: inputFrame_processInput[OF inputFrame_healthOk]
          inputFrame_saveHistory[OF inputFrame_healthOk])
qed

lemma drainAll_healthOk:
  assumes "list_all healthOk (players r)"
  shows "list_all healthOk (players (snd (drainAll w r)))"
proof -
  have len: "length (players (snd (drainAll w r))) = length (players r)"
    by (simp add: drainAll_def fold_drain_length)
  have "healthOk (players (snd (drainAll w r)) ! j)" if "j < length (players r)" for j
    unfolding drainAll_def
    using assms that by (intro fold_drain_stable[OF tickStable_healthOk]) (simp add: list_all_length)
  with len show ?thesis by (simp add: list_all_length)
qed

lemma respawnLoop_healthOk:
  "list_all healthOk ps \<Longrightarrow> list_all healthOk (snd (respawnLoop now obs ps w))"
  by (induction ps arbitrary: w)
     (simp_all add: Let_def split_beta healthOk_def MAX_HEALTH_def)

lemma mode_tick_healthOk:
  "list_all healthOk ps \<Longrightarrow> list_all healthOk (snd (mode_tick w ps))"
  by (auto simp: mode_tick_def Let_def split_beta list.pred_map healthOk_def
        elim!: list.pred_mono_strong)

lemma spawn_healthOk: "healthOk (snd (spawn w p obs))"
  by (simp add: spawn_def Let_def split_beta healthOk_def MAX_HEALTH_def)

lemma respawnAll_healthOk: "list_all healthOk (snd (respawnAll obs ps w))"
  by (induction ps arbitrary: w) (simp_all add: Let_def split_beta spawn_healthOk)

lemma gameTick_healthOk:
  assumes "list_all healthOk (players r)"
  shows "list_all healthOk (players (snd (fst (gameTick w r))))"
proof -
  let ?r0 = "r\<lparr>tick := tick r + 1, snapshotHits := []\<rparr>"
  have "list_all healthOk (players (snd (drainAll w ?r0)))"
    using assms by (intro drainAll_healthOk) simp
  then show ?thesis
    by (simp add: gameTick_def Let_def split_beta handleGameEnd_def processRespawns_def
          respawnLoop_healthOk mode_tick_healthOk respawnAll_healthOk)
qed

lemma applyDamage_dead_target:
  "isDead (players r ! ti) \<Longrightarrow>
   players (snd (applyDamage w r si wpn ti hs)) = players r \<and> fst (applyDamage w r si wpn ti hs) = w"
  by (simp add: applyDamage_def Let_def takeDamage_dead)

section \<open>The ray-sphere test\<close>


lemma quad_smaller_root:
  fixes a b c :: real
  assumes a: "0 < a" and d: "0 \<le> b * b - 4 * a * c"
  shows "a * ((- b - sqrt (b * b - 4 * a * c)) / (2 * a)) * ((- b - sqrt (b * b - 4 * a * c)) / (2 * a))
         + b * ((- b - sqrt (b * b - 4 * a * c)) / (2 * a)) + c = 0"
proof -
  define s where "s = sqrt (b * b - 4 * a * c)"
  have ss: "s * s = b * b - 4 * a * c" using d by (simp add: s_def)
  have "a * ((- b - s) / (2 * a)) * ((- b - s) / (2 * a)) + b * ((- b - s) / (2 * a)) + c
        = ((- b - s) * (- b - s) + 2 * b * (- b - s) + 4 * a * c) / (4 * a)"
    using a by (simp add: field_simps)
  also have "(- b - s) * (- b - s) + 2 * b * (- b - s) + 4 * a * c = s * s - b * b + 4 * a * c"
    by (simp add: algebra_simps)
  also have "\<dots> = 0" using ss by simp
  finally show ?thesis by (simp add: s_def)
qed

lemma quad_root_bound:
  fixes a b c t :: real
  assumes a: "0 < a" and r: "a * t * t + b * t + c = 0"
  shows "0 \<le> b * b - 4 * a * c \<and> (- b - sqrt (b * b - 4 * a * c)) / (2 * a) \<le> t"
proof -
  have sq: "(2 * a * t + b) * (2 * a * t + b) = b * b - 4 * a * c"
  proof -
    have "(2 * a * t + b) * (2 * a * t + b) = 4 * a * (a * t * t + b * t + c) + b * b - 4 * a * c"
      by (simp add: algebra_simps)
    with r show ?thesis by simp
  qed
  then have d: "0 \<le> b * b - 4 * a * c" by (metis zero_le_square)
  have "sqrt (b * b - 4 * a * c) = \<bar>2 * a * t + b\<bar>"
    using sq by (metis real_sqrt_abs2)
  then have "- sqrt (b * b - 4 * a * c) \<le> 2 * a * t + b" by linarith
  then have "- b - sqrt (b * b - 4 * a * c) \<le> t * (2 * a)" by (simp add: algebra_simps)
  then have "(- b - sqrt (b * b - 4 * a * c)) / (2 * a) \<le> t"
    using a by (simp add: pos_divide_le_eq)
  with d show ?thesis by simp
qed

lemma onSphere_quad:
  "onSphere center radius (rayPoint origin direction t) \<longleftrightarrow>
     normSq direction * t * t
     + 2 * ((v_x origin - v_x center) * v_x direction + (v_y origin - v_y center) * v_y direction
            + (v_z origin - v_z center) * v_z direction) * t
     + (distSq origin center - radius * radius) = 0"
  by (simp add: onSphere_def rayPoint_def distSq_def normSq_def algebra_simps)

lemma raySphere_unfold:
  "raySphereIntersect origin direction center radius maxDistance =
     (let a = normSq direction;
          b = 2 * ((v_x origin - v_x center) * v_x direction
                   + (v_y origin - v_y center) * v_y direction
                   + (v_z origin - v_z center) * v_z direction);
          c = distSq origin center - radius * radius
      in if b * b - 4 * a * c < 0 then None
         else if 0 < (- b - sqrt (b * b - 4 * a * c)) / (2 * a) \<and>
                 (- b - sqrt (b * b - 4 * a * c)) / (2 * a) < maxDistance
              then Some ((- b - sqrt (b * b - 4 * a * c)) / (2 * a)) else None)"
  by (simp add: raySphereIntersect_def Let_def normSq_def distSq_def)

lemma raySphere_iff:
  assumes a: "0 < normSq direction"
  shows "raySphereIntersect origin direction center radius maxDistance = Some t \<longleftrightarrow>
         firstCrossing origin direction center radius t \<and> 0 < t \<and> t < maxDistance"
proof -
  define A where "A = normSq direction"
  define B where "B = 2 * ((v_x origin - v_x center) * v_x direction
                   + (v_y origin - v_y center) * v_y direction
                   + (v_z origin - v_z center) * v_z direction)"
  define C where "C = distSq origin center - radius * radius"
  define t1 where "t1 = (- B - sqrt (B * B - 4 * A * C)) / (2 * A)"
  have A: "0 < A" using a by (simp add: A_def)
  have on: "onSphere center radius (rayPoint origin direction u) \<longleftrightarrow> A * u * u + B * u + C = 0"
    for u
    by (simp add: onSphere_quad A_def B_def C_def)
  have res: "raySphereIntersect origin direction center radius maxDistance =
      (if B * B - 4 * A * C < 0 then None
       else if 0 < t1 \<and> t1 < maxDistance then Some t1 else None)"
    by (simp add: raySphere_unfold Let_def A_def B_def C_def t1_def)
  show ?thesis
  proof
    assume h: "raySphereIntersect origin direction center radius maxDistance = Some t"
    then have d: "0 \<le> B * B - 4 * A * C" and t: "t = t1" and r: "0 < t1" "t1 < maxDistance"
      unfolding res by (auto split: if_splits)
    have "A * t1 * t1 + B * t1 + C = 0"
      unfolding t1_def by (rule quad_smaller_root[OF A d])
    moreover have "t1 \<le> u" if "A * u * u + B * u + C = 0" for u
      using quad_root_bound[OF A that] by (simp add: t1_def)
    ultimately have "firstCrossing origin direction center radius t1"
      by (simp add: firstCrossing_def on)
    with t r show "firstCrossing origin direction center radius t \<and> 0 < t \<and> t < maxDistance"
      by simp
  next
    assume h: "firstCrossing origin direction center radius t \<and> 0 < t \<and> t < maxDistance"
    then have root: "A * t * t + B * t + C = 0"
      and least: "\<And>u. A * u * u + B * u + C = 0 \<Longrightarrow> t \<le> u"
      by (simp_all add: firstCrossing_def on)
    from quad_root_bound[OF A root] have d: "0 \<le> B * B - 4 * A * C" and le: "t1 \<le> t"
      by (simp_all add: t1_def)
    have "A * t1 * t1 + B * t1 + C = 0"
      unfolding t1_def by (rule quad_smaller_root[OF A d])
    from least[OF this] le have "t = t1" by simp
    with h d show "raySphereIntersect origin direction center radius maxDistance = Some t"
      unfolding res by simp
  qed
qed

lemma raySphere_inside:
  assumes a: "0 < normSq direction" and c: "distSq origin center < radius * radius"
  shows "raySphereIntersect origin direction center radius maxDistance = None"
proof -
  define A where "A = normSq direction"
  define B where "B = 2 * ((v_x origin - v_x center) * v_x direction
                   + (v_y origin - v_y center) * v_y direction
                   + (v_z origin - v_z center) * v_z direction)"
  define C where "C = distSq origin center - radius * radius"
  have A: "0 < A" using a by (simp add: A_def)
  have C: "C < 0" using c by (simp add: C_def)
  have "A * C < 0" using A C by (simp add: mult_pos_neg)
  then have gt: "B * B < B * B - 4 * A * C" by simp
  then have "sqrt (B * B) < sqrt (B * B - 4 * A * C)" by (simp only: real_sqrt_less_iff)
  then have "\<bar>B\<bar> < sqrt (B * B - 4 * A * C)" by simp
  then have "- B - sqrt (B * B - 4 * A * C) < 0" by linarith
  then have "(- B - sqrt (B * B - 4 * A * C)) / (2 * A) < 0"
    using A by (simp add: divide_neg_pos)
  then show ?thesis
    by (simp add: raySphere_unfold Let_def A_def B_def C_def)
qed

lemma sqrt_36: "sqrt 36 = 6"
  by (rule real_sqrt_unique) simp_all

lemma C4_eval_hit: "raySphereIntersect rayO rayD sphereC 3 100 = Some 7"
  by (simp add: raySphereIntersect_def Let_def rayO_def rayD_def sphereC_def sqrt_36)

lemma C4_eval_edge: "raySphereIntersect rayO rayD sphereC 3 7 = None"
  by (simp add: raySphereIntersect_def Let_def rayO_def rayD_def sphereC_def sqrt_36)

lemma C4_eval_inside: "raySphereIntersect rayO rayD rayO 1 100 = None"
  by (simp add: raySphereIntersect_def Let_def rayO_def rayD_def)

lemma C4_inside_root: "smallestNonNegRoot rayO rayD rayO 1 1"
proof -
  have "1 \<le> t'" if "0 \<le> t'" "t' * t' = 1" for t' :: real
  proof (rule ccontr)
    assume "\<not> 1 \<le> t'"
    then have "t' < 1" by simp
    with that(1) have "t' * t' < 1 * 1" by (intro mult_strict_mono') simp_all
    with that(2) show False by simp
  qed
  then show ?thesis
    by (simp add: smallestNonNegRoot_def onSphere_def rayPoint_def distSq_def rayO_def rayD_def)
qed

section \<open>The history query\<close>


lemma ringIndex_Suc: "prevIndex (ringIndex p k) = ringIndex p (Suc k)"
  by (simp add: ringIndex_def)

lemma historyWalk_char:
  assumes "t < sampleTime p k"
  shows "(\<exists>j. k \<le> j \<and> j < k + n \<and> bracketAt p t j \<and> t < sampleTime p j \<and>
              (\<forall>i. k \<le> i \<and> i < j \<longrightarrow> t < sampleTime p (Suc i)) \<and>
              historyWalk p t n (ringIndex p k) = between p j t)
         \<or> ((\<forall>i. k \<le> i \<and> i < k + n \<longrightarrow> t < sampleTime p (Suc i)) \<and>
             historyWalk p t n (ringIndex p k) = samplePos p (k + n))"
  using assms
proof (induction n arbitrary: k)
  case 0
  then show ?case by (simp add: samplePos_def)
next
  case (Suc n)
  show ?case
  proof (cases "sampleTime p (Suc k) \<le> t")
    case True
    with Suc.prems have "historyWalk p t (Suc n) (ringIndex p k) = between p k t"
      by (simp add: Let_def ringIndex_Suc between_def lerp_def samplePos_def slotAt_def
            sampleTime_def[symmetric])
    with True Suc.prems show ?thesis
      by (intro disjI1 exI[of _ k]) (simp add: bracketAt_def)
  next
    case False
    then have lt: "t < sampleTime p (Suc k)" by simp
    have step: "historyWalk p t (Suc n) (ringIndex p k) = historyWalk p t n (ringIndex p (Suc k))"
      using False Suc.prems
      by (simp add: Let_def ringIndex_Suc sampleTime_def[symmetric])
    from Suc.IH[OF lt] show ?thesis
    proof
      assume "\<exists>j. Suc k \<le> j \<and> j < Suc k + n \<and> bracketAt p t j \<and> t < sampleTime p j \<and>
              (\<forall>i. Suc k \<le> i \<and> i < j \<longrightarrow> t < sampleTime p (Suc i)) \<and>
              historyWalk p t n (ringIndex p (Suc k)) = between p j t"
      then obtain j where j: "Suc k \<le> j" "j < Suc k + n" "bracketAt p t j" "t < sampleTime p j"
        "\<forall>i. Suc k \<le> i \<and> i < j \<longrightarrow> t < sampleTime p (Suc i)"
        "historyWalk p t n (ringIndex p (Suc k)) = between p j t" by blast
      have "\<forall>i. k \<le> i \<and> i < j \<longrightarrow> t < sampleTime p (Suc i)"
      proof (intro allI impI)
        fix i assume "k \<le> i \<and> i < j"
        then show "t < sampleTime p (Suc i)"
          using j(5) lt by (cases "i = k") auto
      qed
      with j step show ?thesis
        by (intro disjI1 exI[of _ j]) simp
    next
      assume a: "(\<forall>i. Suc k \<le> i \<and> i < Suc k + n \<longrightarrow> t < sampleTime p (Suc i)) \<and>
             historyWalk p t n (ringIndex p (Suc k)) = samplePos p (Suc k + n)"
      have "\<forall>i. k \<le> i \<and> i < k + Suc n \<longrightarrow> t < sampleTime p (Suc i)"
      proof (intro allI impI)
        fix i assume "k \<le> i \<and> i < k + Suc n"
        then show "t < sampleTime p (Suc i)"
          using a lt by (cases "i = k") auto
      qed
      with a step show ?thesis by simp
    qed
  qed
qed

lemma getPositionAt_unfold:
  "getPositionAt p t =
     (if historySize p = 0 then None
      else if sampleTime p 0 \<le> t then Some (samplePos p 0)
      else Some (historyWalk p t (historySize p - 1) (ringIndex p 0)))"
  by (simp add: getPositionAt_def Let_def sampleTime_def samplePos_def ringIndex_def)

lemma timesOrdered_chain:
  assumes "timesOrdered p" "j < historySize p"
  shows "i \<le> j \<Longrightarrow> sampleTime p j \<le> sampleTime p i"
  using assms(2)
proof (induction j)
  case 0
  then show ?case by simp
next
  case (Suc j)
  show ?case
  proof (cases "i = Suc j")
    case True
    then show ?thesis by simp
  next
    case False
    with Suc.prems have "i \<le> j" by simp
    moreover have "j < historySize p" using Suc.prems by simp
    ultimately have "sampleTime p j \<le> sampleTime p i" using Suc.IH by simp
    moreover have "sampleTime p (Suc j) \<le> sampleTime p j"
      using assms(1) Suc.prems by (simp add: timesOrdered_def)
    ultimately show ?thesis by simp
  qed
qed

lemma lerp_same: "lerp a a l = a"
  by (simp add: lerp_def)

lemma query_cases:
  assumes sz: "0 < historySize p" and lt: "t < sampleTime p 0"
  shows "(\<exists>k. Suc k < historySize p \<and> bracketAt p t k \<and> t < sampleTime p k \<and>
              (\<forall>j<k. \<not> bracketAt p t j) \<and>
              getPositionAt p t = Some (between p k t))
         \<or> ((\<forall>i<historySize p. t < sampleTime p i) \<and>
             getPositionAt p t = Some (samplePos p (historySize p - 1)))"
proof -
  have g: "getPositionAt p t = Some (historyWalk p t (historySize p - 1) (ringIndex p 0))"
    using sz lt by (simp add: getPositionAt_unfold)
  from historyWalk_char[OF lt, of "historySize p - 1"] show ?thesis
  proof
    assume "\<exists>j. 0 \<le> j \<and> j < 0 + (historySize p - 1) \<and> bracketAt p t j \<and> t < sampleTime p j \<and>
              (\<forall>i. 0 \<le> i \<and> i < j \<longrightarrow> t < sampleTime p (Suc i)) \<and>
              historyWalk p t (historySize p - 1) (ringIndex p 0) = between p j t"
    then obtain j where j: "j < historySize p - 1" "bracketAt p t j" "t < sampleTime p j"
      "\<forall>i<j. t < sampleTime p (Suc i)"
      "historyWalk p t (historySize p - 1) (ringIndex p 0) = between p j t" by auto
    have "\<forall>i<j. \<not> bracketAt p t i" using j(4) by (auto simp: bracketAt_def)
    with j g show ?thesis by (intro disjI1 exI[of _ j]) auto
  next
    assume a: "(\<forall>i. 0 \<le> i \<and> i < 0 + (historySize p - 1) \<longrightarrow> t < sampleTime p (Suc i)) \<and>
             historyWalk p t (historySize p - 1) (ringIndex p 0) = samplePos p (0 + (historySize p - 1))"
    have "\<forall>i<historySize p. t < sampleTime p i"
    proof (intro allI impI)
      fix i assume i: "i < historySize p"
      show "t < sampleTime p i"
      proof (cases i)
        case 0
        with lt show ?thesis by simp
      next
        case (Suc m)
        with i a show ?thesis by simp
      qed
    qed
    with a g show ?thesis by simp
  qed
qed

lemma saveHistory_fields:
  "historyHead (saveHistory p ts) = (historyHead p + 1) mod HISTORY_CAPACITY \<and>
   historySize (saveHistory p ts) =
     (if historySize p < HISTORY_CAPACITY then historySize p + 1 else historySize p) \<and>
   historyTime (saveHistory p ts) = (historyTime p)[historyHead p := ts] \<and>
   historyX (saveHistory p ts) = (historyX p)[historyHead p := px p] \<and>
   historyY (saveHistory p ts) = (historyY p)[historyHead p := py p] \<and>
   historyZ (saveHistory p ts) = (historyZ p)[historyHead p := pz p]"
  by (simp add: saveHistory_def Let_def)

lemma prevIndex_next:
  assumes "h < HISTORY_CAPACITY"
  shows "prevIndex ((h + 1) mod HISTORY_CAPACITY) = h"
proof (cases "h + 1 < HISTORY_CAPACITY")
  case True
  then have "(h + 1) mod HISTORY_CAPACITY = h + 1" by simp
  then have "prevIndex ((h + 1) mod HISTORY_CAPACITY) = (h + HISTORY_CAPACITY) mod HISTORY_CAPACITY"
    by (simp add: prevIndex_def)
  also have "\<dots> = h" using assms by simp
  finally show ?thesis .
next
  case False
  with assms have h: "h + 1 = HISTORY_CAPACITY" by simp
  then have "prevIndex ((h + 1) mod HISTORY_CAPACITY) = (HISTORY_CAPACITY - 1) mod HISTORY_CAPACITY"
    by (simp add: prevIndex_def)
  also have "\<dots> = h" using h by (simp add: HISTORY_CAPACITY_def)
  finally show ?thesis .
qed

lemma saveHistory_newest:
  assumes "historyHead p < HISTORY_CAPACITY"
    and "length (historyTime p) = HISTORY_CAPACITY" and "length (historyX p) = HISTORY_CAPACITY"
    and "length (historyY p) = HISTORY_CAPACITY" and "length (historyZ p) = HISTORY_CAPACITY"
  shows "sampleTime (saveHistory p ts) 0 = ts \<and>
         samplePos (saveHistory p ts) 0 = \<lparr>v_x = px p, v_y = py p, v_z = pz p\<rparr>"
proof -
  have "ringIndex (saveHistory p ts) 0 = historyHead p"
    using prevIndex_next[OF assms(1)] by (simp add: ringIndex_def saveHistory_fields)
  then show ?thesis
    using assms
    by (simp add: sampleTime_def samplePos_def slotAt_def saveHistory_fields)
qed

lemma walker_ring:
  "ringIndex walker 0 = 2 \<and> ringIndex walker (Suc 0) = 1 \<and> ringIndex walker (Suc (Suc 0)) = 0"
  by (simp add: ringIndex_def walker_def prevIndex_def HISTORY_CAPACITY_def)

lemma walker_samples:
  "historySize walker = 3 \<and>
   sampleTime walker 0 = 300 \<and> sampleTime walker (Suc 0) = 200 \<and>
   sampleTime walker (Suc (Suc 0)) = 100 \<and>
   samplePos walker 0 = \<lparr>v_x = 4, v_y = 0, v_z = 8\<rparr> \<and>
   samplePos walker (Suc 0) = \<lparr>v_x = 2, v_y = 0, v_z = 4\<rparr> \<and>
   samplePos walker (Suc (Suc 0)) = \<lparr>v_x = 0, v_y = 0, v_z = 0\<rparr>"
  by (simp add: sampleTime_def samplePos_def slotAt_def walker_ring)
     (simp add: walker_def newPlayer_def HISTORY_CAPACITY_def)

lemma walker_ordered: "timesOrdered walker"
proof -
  have "sampleTime walker (Suc k) \<le> sampleTime walker k" if "Suc k < 3" for k :: nat
  proof -
    from that have "k = 0 \<or> k = Suc 0" by arith
    then show ?thesis using walker_samples by auto
  qed
  then show ?thesis
    using walker_samples by (simp add: timesOrdered_def)
qed

lemma walker_query:
  "getPositionAt walker 250 = Some \<lparr>v_x = 3, v_y = 0, v_z = 6\<rparr> \<and>
   getPositionAt walker 300 = Some \<lparr>v_x = 4, v_y = 0, v_z = 8\<rparr> \<and>
   getPositionAt walker 50 = Some \<lparr>v_x = 0, v_y = 0, v_z = 0\<rparr>"
  by (simp add: getPositionAt_def walker_def newPlayer_def prevIndex_def slotAt_def
        HISTORY_CAPACITY_def numeral_2_eq_2 Let_def)

section \<open>The map generator\<close>


lemma funpow_Suc_apply: "(f ^^ Suc n) x = f ((f ^^ n) x)"
  by simp

lemma spec_draw_Suc:
  "real (lcg_next ((lcg_next ^^ n) seed)) / 2147483647 = spec_draw lcg_next seed (Suc n)"
  by (simp add: spec_draw_def)

lemma gen_boxes_spec:
  "gen_boxes k ((lcg_next ^^ (5 * j)) seed) acc =
     (acc @ map (spec_box lcg_next seed) [j..<j + k], (lcg_next ^^ (5 * (j + k))) seed)"
proof (induction k arbitrary: j acc)
  case 0
  then show ?case by simp
next
  case (Suc k)
  let ?s = "(lcg_next ^^ (5 * j)) seed"
  have s5: "lcg_next (lcg_next (lcg_next (lcg_next (lcg_next ?s)))) = (lcg_next ^^ (5 * Suc j)) seed"
    by (simp add: funpow_add[symmetric] numeral_eq_Suc)
  have d: "real (lcg_next ?s) / 2147483647 = spec_draw lcg_next seed (5 * j + 1)"
    "real (lcg_next (lcg_next ?s)) / 2147483647 = spec_draw lcg_next seed (5 * j + 2)"
    "real (lcg_next (lcg_next (lcg_next ?s))) / 2147483647 = spec_draw lcg_next seed (5 * j + 3)"
    "real (lcg_next (lcg_next (lcg_next (lcg_next ?s)))) / 2147483647
       = spec_draw lcg_next seed (5 * j + 4)"
    "real (lcg_next (lcg_next (lcg_next (lcg_next (lcg_next ?s))))) / 2147483647
       = spec_draw lcg_next seed (5 * j + 5)"
    by (simp_all add: spec_draw_def numeral_eq_Suc)
  have box: "\<lparr>o_x = (real (lcg_next (lcg_next (lcg_next (lcg_next ?s)))) / 2147483647 - 1 / 2)
                    * (MAP_SIZE - (1 + real (lcg_next ?s) / 2147483647 * 4)),
              o_z = (real (lcg_next (lcg_next (lcg_next (lcg_next (lcg_next ?s))))) / 2147483647 - 1 / 2)
                    * (MAP_SIZE - (1 + real (lcg_next (lcg_next (lcg_next ?s))) / 2147483647 * 4)),
              width = 1 + real (lcg_next ?s) / 2147483647 * 4,
              height = 2 + real (lcg_next (lcg_next ?s)) / 2147483647 * 6,
              depth = 1 + real (lcg_next (lcg_next (lcg_next ?s))) / 2147483647 * 4\<rparr>
            = spec_box lcg_next seed j"
    unfolding d by (simp add: spec_box_def MAP_SIZE_def)
  have "gen_boxes (Suc k) ?s acc =
        gen_boxes k ((lcg_next ^^ (5 * Suc j)) seed) (acc @ [spec_box lcg_next seed j])"
    by (simp only: gen_boxes.simps lcg_random_def Let_def split_conv box) (simp only: s5)
  also have "\<dots> = ((acc @ [spec_box lcg_next seed j]) @ map (spec_box lcg_next seed) [Suc j..<Suc j + k],
                   (lcg_next ^^ (5 * (Suc j + k))) seed)"
    by (rule Suc.IH)
  also have "(acc @ [spec_box lcg_next seed j]) @ map (spec_box lcg_next seed) [Suc j..<Suc j + k]
      = acc @ map (spec_box lcg_next seed) [j..<j + Suc k]"
  proof -
    have "[j..<j + Suc k] = j # [Suc j..<Suc j + k]" by (subst upt_rec) simp
    then show ?thesis by simp
  qed
  finally show ?case by simp
qed

lemma generateObstacles_spec: "generateObstacles seed = spec_obstacles lcg_next seed"
proof -
  have "fst (gen_boxes OBSTACLE_COUNT seed []) = map (spec_box lcg_next seed) [0..<OBSTACLE_COUNT]"
    using gen_boxes_spec[of OBSTACLE_COUNT 0 seed "[]"] by simp
  moreover have "spec_obstacles lcg_next seed =
      map (spec_box lcg_next seed) [0..<OBSTACLE_COUNT] @ spec_walls"
    unfolding spec_obstacles_def OBSTACLE_COUNT_def ..
  ultimately show ?thesis
    by (simp add: generateObstacles_def spec_walls_def Let_def MAP_SIZE_def)
qed

lemma bitlen_0: "bitlen 0 = 0"
  by (simp add: bitlen.simps)

lemma bitlen_1: "bitlen (Suc 0) = Suc 0"
  by (simp add: bitlen.simps bitlen_0)

lemma bitlen_numeral: "bitlen (numeral k) = Suc (bitlen (numeral k div 2))"
  by (subst bitlen.simps) simp

lemma lcg_12345_1: "lcg_next 12345 = 1406932606"
  by (simp add: lcg_next_def fl53_def bitlen_0 bitlen_1 bitlen_numeral Let_def)

lemma lcg_12345_2: "lcg_next 1406932606 = 654583808"
  by (simp add: lcg_next_def fl53_def bitlen_0 bitlen_1 bitlen_numeral Let_def)

lemma spec_lcg_12345_1: "spec_lcg_next 12345 = 1406932606"
  by (simp add: spec_lcg_next_def)

lemma spec_lcg_12345_2: "spec_lcg_next 1406932606 = 654583775"
  by (simp add: spec_lcg_next_def)

lemma spec_box0_height:
  "height (spec_box nxt seed 0) = 2 + real (nxt (nxt seed)) / 2147483647 * 6"
  by (simp add: spec_box_def spec_draw_def numeral_2_eq_2)

lemma spec_obstacles_first: "spec_obstacles nxt seed ! 0 = spec_box nxt seed 0"
proof -
  have "spec_obstacles nxt seed = map (spec_box nxt seed) [0..<OBSTACLE_COUNT] @ spec_walls"
    unfolding spec_obstacles_def OBSTACLE_COUNT_def ..
  moreover have "0 < OBSTACLE_COUNT" by (simp add: OBSTACLE_COUNT_def)
  ultimately show ?thesis by (simp add: nth_append)
qed

lemma spec_obstacles_length: "length (spec_obstacles nxt seed) = 44"
  by (simp add: spec_obstacles_def spec_walls_def)

lemma bitlen_le: "n < 2 ^ k \<Longrightarrow> bitlen n \<le> k"
proof (induction k arbitrary: n)
  case 0
  then show ?case by (simp add: bitlen_0)
next
  case (Suc k)
  show ?case
  proof (cases "n = 0")
    case True
    then show ?thesis by (simp add: bitlen_0)
  next
    case False
    from Suc.prems have "n div 2 < 2 ^ k" by simp
    then have "bitlen (n div 2) \<le> k" by (rule Suc.IH)
    with False show ?thesis by (subst bitlen.simps) simp
  qed
qed

lemma fl53_exact: "n < 2 ^ 53 \<Longrightarrow> fl53 n = n"
  using bitlen_le[of n 53] by (simp add: fl53_def)

lemma lcg_next_exact:
  assumes "s * 1103515245 + 12345 < 2 ^ 53"
  shows "lcg_next s = spec_lcg_next s"
proof -
  from assms have "s * 1103515245 < 2 ^ 53" by simp
  then have "fl53 (s * 1103515245) = s * 1103515245" by (rule fl53_exact)
  moreover have "fl53 (s * 1103515245 + 12345) = s * 1103515245 + 12345"
    using assms by (rule fl53_exact)
  ultimately show ?thesis by (simp add: lcg_next_def spec_lcg_next_def)
qed

section \<open>One bullet and one message\<close>


lemma sqrt_9_25: "sqrt (9 / 25) = 3 / 5"
  by (rule real_sqrt_unique) (simp_all add: power2_eq_square)

lemma bob_past: "getPositionAt bob 1000 = Some \<lparr>v_x = 0, v_y = 1 / 10, v_z = 10\<rparr>"
  by (simp add: getPositionAt_def bob_def newPlayer_def prevIndex_def slotAt_def
        HISTORY_CAPACITY_def Let_def)

lemma bob_head: "checkPlayerHit eye rayD (bob\<lparr>px := 0, py := 1 / 10, pz := 10\<rparr>) 150
                   = Some (97 / 10, True)"
  by (simp add: checkPlayerHit_def raySphereIntersect_def Let_def eye_def rayD_def bob_def
        newPlayer_def PLAYER_HEIGHT_def HEAD_HEIGHT_def PLAYER_RADIUS_def sqrt_9_25)

lemma S3_scan:
  "scanTargets (players roomS3 ! 0) eye rayD 1000 (range rifle) (players roomS3) 0
     (None, range rifle, False) = (Some 1, 97 / 10, True)"
  using bob_past bob_head
  by (simp add: roomS3_def scanTarget_def rifle_def)
     (simp add: ann_def bob_def newPlayer_def)

lemma S3_steps: "nat \<lceil>(97 / 10 :: real) / rayStep\<rceil> = 20"
proof -
  have "\<lceil>(97 / 5 :: real)\<rceil> = 20" by (simp add: ceiling_eq_iff)
  then show ?thesis by (simp add: rayStep_def)
qed

lemma S3_raycast:
  "hit (raycast eye rayD (97 / 10) (obstacles roomS3)) \<and>
   distance (raycast eye rayD (97 / 10) (obstacles roomS3)) = 4"
  unfolding raycast_def S3_steps Let_def
  by (simp add: rayStep_def insideObstacle_def wall_def eye_def rayD_def roomS3_def roomD_def
        numeral_eq_Suc Let_def)


lemma message_dropped:
  assumes "\<not> isBinary \<or> getMessageType msg \<notin> {Some JOIN, Some INPUT, Some PING}"
  shows "message cfg f32 f64 w rooms conn d msg isBinary = Inr (w, rooms, d, [])"
  using assms by (auto simp: message_def Let_def)

lemma message_input_unadmitted:
  assumes "getMessageType msg = Some INPUT" "playerId d = 0 \<or> roomId d = NoRoom"
  shows "message cfg f32 f64 w rooms conn d msg True = Inr (w, rooms, d, [])"
  using assms by (auto simp: message_def Let_def JOIN_def INPUT_def)

lemma decodeInput_short:
  "length buf < 23 \<Longrightarrow> decodeInput f32 f64 buf = Inl RangeError"
  by (auto simp: decodeInput_def getUint32_def getUint8_def getFloat_def split: sum.splits)

lemma decodeInput_long:
  "23 \<le> length buf \<Longrightarrow> \<exists>input. decodeInput f32 f64 buf = Inr input"
  by (simp add: decodeInput_def getUint32_def getUint8_def getFloat_def)

lemma message_input_truncated:
  assumes "getMessageType msg = Some INPUT" "playerId d \<noteq> 0" "roomId d \<noteq> NoRoom"
    "length msg < 23"
  shows "message cfg f32 f64 w rooms conn d msg True = Inl RangeError"
  using assms by (simp add: message_def Let_def JOIN_def INPUT_def decodeInput_short)

lemma message_input_complete:
  assumes "getMessageType msg = Some INPUT" "23 \<le> length msg"
  shows "\<exists>rooms'. message cfg f32 f64 w rooms conn d msg True = Inr (w, rooms', d, [])"
proof -
  from decodeInput_long[OF assms(2), of f32 f64] obtain input
    where "decodeInput f32 f64 msg = Inr input" by blast
  with assms(1) show ?thesis
    by (auto simp: message_def Let_def JOIN_def INPUT_def split: option.splits)
qed

lemma decodeJoinRequest_overlong:
  "2 \<le> length buf \<Longrightarrow> length buf - 2 \<le> unat (buf ! 1) \<Longrightarrow>
   decodeJoinRequest buf = drop 2 buf"
  by (simp add: decodeJoinRequest_def Let_def)

lemma message_join_acts:
  assumes "getMessageType msg = Some JOIN"
  shows "\<exists>w' rooms' d' a. message cfg f32 f64 w rooms conn d msg True = Inr (w', rooms', d', [a])"
  using assms
  by (auto simp: message_def Let_def split_beta split: option.splits)

lemma addPlayer_admits:
  assumes "\<not> isFull r"
  shows "\<exists>w' r' p. addPlayer w r nm conn = (w', r', Some p) \<and> pid p = nextPlayerId r \<and>
           rid r' = rid r \<and> map name (players r') = map name (players r) @ [nm]"
  using assms
  by (simp add: addPlayer_def isFull_def Let_def split_beta spawn_def start_def newPlayer_def)

lemma message_join_admitted:
  assumes "getMessageType msg = Some JOIN" and "find_index (\<lambda>r. \<not> isFull r) rooms = Some k"
    and "\<not> isFull (rooms ! k)"
  shows "\<exists>w' r'. message cfg f32 f64 w rooms conn d msg True =
           Inr (w', rooms[k := r'],
                \<lparr>playerId = nextPlayerId (rooms ! k), roomId = rid (rooms ! k)\<rparr>,
                [Send (encodeWelcome (nextPlayerId (rooms ! k)) (TICK_RATE cfg) (MAP_SEED cfg))]) \<and>
           map name (players r') = map name (players (rooms ! k)) @ [decodeJoinRequest msg]"
proof -
  from addPlayer_admits[OF assms(3), of w "decodeJoinRequest msg" conn]
  obtain w' r' p where a: "addPlayer w (rooms ! k) (decodeJoinRequest msg) conn = (w', r', Some p)"
    "pid p = nextPlayerId (rooms ! k)" "rid r' = rid (rooms ! k)"
    "map name (players r') = map name (players (rooms ! k)) @ [decodeJoinRequest msg]" by blast
  have "message cfg f32 f64 w rooms conn d msg True =
           Inr (w', rooms[k := r'],
                \<lparr>playerId = nextPlayerId (rooms ! k), roomId = rid (rooms ! k)\<rparr>,
                [Send (encodeWelcome (nextPlayerId (rooms ! k)) (TICK_RATE cfg) (MAP_SEED cfg))])"
    using assms(1,2) a by (simp add: message_def Let_def findAvailableRoom_def)
  with a(4) show ?thesis by blast
qed

lemma find_index_holds: "find_index P xs = Some k \<Longrightarrow> P (xs ! k) \<and> k < length xs"
  by (induction xs arbitrary: k) (auto split: if_splits)

lemma C8_eval_truncated:
  "message cfg0 noFloat noFloat world0 [roomA] 7 sockA [2, 1, 0] True = Inl RangeError"
  by (simp add: message_def getMessageType_def JOIN_def INPUT_def sockA_def decodeInput_def
        getUint32_def Let_def)

lemma C8_eval_join:
  "outcome (message cfg0 noFloat noFloat world0 [roomA] 9 sockNew [1, 200, 65, 66] True) =
     Inr ([[[], [65, 66]]], \<lparr>playerId = 2, roomId = Lobby\<rparr>,
          [Send [1, 2, 0, 60, 57, 48, 0, 0]])"
  by (simp add: outcome_def message_def getMessageType_def JOIN_def decodeJoinRequest_def
        findAvailableRoom_def isFull_def roomA_def roomD_def alice_def addPlayer_def spawn_def
        start_def newPlayer_def encodeWelcome_def byteOf_def cfg0_def Math_random_def world0_def
        Let_def)

section \<open>The claims\<close>

lemma handleShoot_gate_closed:
  "\<not> fst (canShoot (players r ! si) (fst (Date_now w))) \<Longrightarrow> snd (handleShoot w r si t) = r"
  by (simp add: handleShoot_def Let_def split_beta canShoot_False_unchanged)

lemma drainInputs_dead:
  "isDead (players r ! i) \<Longrightarrow> snd (drainInputs inputs i w r) = r"
proof (induction inputs arbitrary: w)
  case Nil
  then show ?case by simp
next
  case (Cons input rest)
  have r1: "r\<lparr>players := (players r)[i := processInput (players r ! i) input dt obs]\<rparr> = r"
    for dt obs
    using Cons.prems by (simp add: processInput_dead)
  have hs: "snd (handleShoot w' r i t) = r" for w' t
    using Cons.prems by (simp add: handleShoot_gate_closed canShoot_dead)
  show ?case
    unfolding drainInputs_Cons Let_def r1
    using Cons by (cases "shoot input") (simp_all add: hs del: drainInputs.simps)
qed

text \<open>
  C9. For a player with \<open>isDead\<close> set, \<open>processInput\<close> returns the player unchanged, every
  field included, and draining any list of inputs for that player in \<open>gameTick\<close> leaves
  the whole room as it was (only the clock is read).
\<close>

theorem C9_dead_player_ignores_input:
  assumes "isDead (players r ! i)"
  shows "processInput (players r ! i) input dt obs = players r ! i \<and>
         snd (drainInputs inputs i w r) = r"
  using assms by (simp add: processInput_dead drainInputs_dead)

theorem C9_dead_player_ignores_input_witness:
  "isDead (players roomD ! 0) \<and>
   processInput (players roomD ! 0) input7 (1 / 60) [] = players roomD ! 0 \<and>
   snd (drainInputs [input7, input7] 0 world0 roomD) = roomD"
proof -
  have h: "isDead (players roomD ! 0)" by (simp add: roomD_def deadPlayer_def)
  from C9_dead_player_ignores_input [OF h, of input7 "1 / 60" "[]" "[input7, input7]" world0] h
  show ?thesis by blast
qed

text \<open>
  C6. Take any history of one player in which nothing but \<open>canShoot\<close> writes
  \<open>lastShootTime\<close>. Every shot that passes the gate is at least the fire interval of the
  weapon then held after the shot that passed before it. An attempt that does not pass
  leaves the player unchanged, \<open>lastShootTime\<close> included, and \<open>handleShoot\<close> then leaves
  the room unchanged.
\<close>

theorem C6_fire_rate_gate:
  assumes "\<forall>(f, t) \<in> set evs. \<forall>q. lastShootTime (f q) = lastShootTime q"
  shows "gaps_ok (lastShootTime p) (shots p evs) \<and>
         (\<not> fst (canShoot (players r ! si) (fst (Date_now w))) \<longrightarrow>
            snd (canShoot (players r ! si) (fst (Date_now w))) = players r ! si \<and>
            snd (handleShoot w r si t) = r)"
  using assms by (simp add: shots_gaps canShoot_False_unchanged handleShoot_gate_closed)

lemma holdFire_fields:
  "\<not> isDead p \<Longrightarrow>
   \<not> isDead (holdFire p) \<and> isShooting (holdFire p) \<and> weapon (holdFire p) = 0 \<and>
   lastShootTime (holdFire p) = lastShootTime p"
  unfolding holdFire_def processInput_def
  by (simp add: Let_def split_beta input7_def if_distrib[of isDead] if_distrib[of isShooting]
        if_distrib[of weapon] if_distrib[of lastShootTime] split del: if_split cong: if_cong)

lemma holdFire_lastShootTime: "lastShootTime (holdFire q) = lastShootTime q"
  unfolding holdFire_def by (rule inputFrame_processInput) (simp add: inputFrame_def)

theorem C6_fire_rate_gate_witness:
  "shots (newPlayer 1 [] 7) [(holdFire, 1000), (holdFire, 1399), (holdFire, 1400)]
     = [(1000, 0), (1400, 0)] \<and>
   gaps_ok 0 [(1000, 0), (1400, 0)] \<and>
   \<not> fst (canShoot (players roomA ! 0) (fst (Date_now world0))) \<and>
   snd (handleShoot world0 roomA 0 990) = roomA"
proof -
  let ?evs = "[(holdFire, 1000), (holdFire, 1399), (holdFire, 1400::real)]"
  have h: "\<forall>(f, t) \<in> set ?evs. \<forall>q. lastShootTime (f q) = lastShootTime q"
    by (simp add: holdFire_lastShootTime)
  have a: "\<not> isDead (newPlayer 1 [] 7)" "lastShootTime (newPlayer 1 [] 7) = 0"
    by (simp_all add: newPlayer_def)
  have s1: "canShoot (holdFire p) t =
      (if t - lastShootTime p \<ge> 400 then (True, (holdFire p)\<lparr>lastShootTime := t\<rparr>)
       else (False, holdFire p))" if "\<not> isDead p" for p t
    using holdFire_fields[OF that] by (simp add: canShoot_def weaponAt_def WEAPONS_def)
  have sh: "shots (newPlayer 1 [] 7) ?evs = [(1000, 0), (1400, 0)]"
    using a holdFire_fields by (simp add: s1 Let_def)
  have g: "\<not> fst (canShoot (players roomA ! 0) (fst (Date_now world0)))"
    by (simp add: roomA_def alice_def newPlayer_def canShoot_def weaponAt_def WEAPONS_def
          Date_now_def world0_def)
  from C6_fire_rate_gate [OF h, of "newPlayer 1 [] 7" roomA 0 world0 990] sh a g
  show ?thesis
    by (simp add: holdFire_lastShootTime)
qed

text \<open>
  C1 (as amended). After a tick the lastProcessedInput of the player at position \<open>i\<close> is
  the seq of the last input of its queue if the queue was not empty and the player was
  alive when the input loop reached it; otherwise it is what it was before the tick. A
  player that is dead when the tick starts is dead when the loop reaches it. Each snapshot
  sent carries the lastProcessedInput of its player modulo \<open>2^32\<close>; none is sent when the
  snapshot does not fit the scratch buffer.
\<close>

theorem C1_lastProcessedInput:
  assumes "i < length (players r)"
  shows "lastProcessedInput (players (snd (fst (gameTick w r))) ! i) =
           (if aliveAtDrain w r i \<and> pendingInputs (players r ! i) \<noteq> []
            then seq (last (pendingInputs (players r ! i)))
            else lastProcessedInput (players r ! i)) \<and>
         (isDead (players r ! i) \<longrightarrow> \<not> aliveAtDrain w r i) \<and>
         map (\<lambda>cs. (fst cs, snap_lastProcessedInput (snd cs))) (snd (gameTick w r)) =
           (if snapshotFits (snd (fst (gameTick w r)))
            then acknowledged (snd (fst (gameTick w r))) else [])"
proof -
  let ?r0 = "r\<lparr>tick := tick r + 1, snapshotHits := []\<rparr>"
  have i0: "i < length (players ?r0)" using assms by simp
  have len: "length (players (snd (drainAll w ?r0))) = length (players r)"
    by (simp add: drainAll_def fold_drain_length)
  have "lastProcessedInput (players (snd (fst (gameTick w r))) ! i) =
        map lastProcessedInput (players (snd (fst (gameTick w r)))) ! i"
    using assms by (simp add: gameTick_length)
  also have "\<dots> = lastProcessedInput (players (snd (drainAll w ?r0)) ! i)"
    using assms len by (simp add: gameTick_lpi)
  also have "\<dots> = (if aliveAtDrain w r i \<and> pendingInputs (players r ! i) \<noteq> []
            then seq (last (pendingInputs (players r ! i)))
            else lastProcessedInput (players r ! i))"
    using drainAll_lpi[OF i0, of w] by (simp add: aliveAtDrain_def Let_def)
  finally have a: "lastProcessedInput (players (snd (fst (gameTick w r))) ! i) =
           (if aliveAtDrain w r i \<and> pendingInputs (players r ! i) \<noteq> []
            then seq (last (pendingInputs (players r ! i)))
            else lastProcessedInput (players r ! i))" .
  have b: "isDead (players r ! i) \<longrightarrow> \<not> aliveAtDrain w r i"
    using fold_drain_stable[OF tickStable_isDead, of "(w, ?r0)" i "[0..<i]"]
    by (simp add: aliveAtDrain_def)
  from a b gameTick_acks show ?thesis by blast
qed

theorem C1_lastProcessedInput_witness:
  "0 < length (players roomD) \<and> isDead (players roomD ! 0) \<and>
   \<not> aliveAtDrain world0 roomD 0 \<and>
   lastProcessedInput (players (snd (fst (gameTick world0 roomD))) ! 0) = 0"
proof -
  have h: "0 < length (players roomD)" by (simp add: roomD_def)
  have d: "isDead (players roomD ! 0)" by (simp add: roomD_def deadPlayer_def)
  have l: "lastProcessedInput (players roomD ! 0) = 0"
    by (simp add: roomD_def deadPlayer_def newPlayer_def)
  from C1_lastProcessedInput [OF h, of world0] h d l show ?thesis by simp
qed

text \<open>
  The claim as stated fails for a dead player: the tick drains the input with seq 7 from
  the queue of the only player, and the snapshot sent to that player carries 0.
\<close>

theorem C1_dead_player_counterexample:
  "map seq (pendingInputs (players roomD ! 0)) = [7] \<and>
   map pendingInputs (players (snd (fst (gameTick world0 roomD)))) = [[]] \<and>
   map (snap_lastProcessedInput \<circ> snd) (snd (gameTick world0 roomD)) = [0]"
  by (simp add: gameTick_def drainAll_def drainPlayer_def roomD_def deadPlayer_def newPlayer_def
      world0_def input7_def processInput_def handleShoot_def canShoot_def Date_now_def
      saveHistory_def processRespawns_def mode_tick_def shouldEndGame_def broadcastSnapshot_def
      encodeSnapshot_def SNAPSHOT_BUFFER_SIZE_def HISTORY_CAPACITY_def MAX_LAG_COMPENSATION_def
      Let_def)

text \<open>
  C10. \<open>takeDamage\<close> does nothing to a dead player and returns false; on a live player
  it subtracts the damage, and at or below zero it sets health to 0, sets \<open>isDead\<close>,
  adds one to \<open>deaths\<close> and returns true. With damage that is not negative it keeps
  health within 0 and MAX_HEALTH, with \<open>isDead\<close> set exactly at health 0. In any run of
  hits on one player at most one returns true, and \<open>deaths\<close> grows by the number that
  do. A hit applied to a dead target changes no player, so no kill is scored and no
  respawn timer is set. A tick, and spawning a new player, keep the health bounds of every
  player of the room.
\<close>

theorem C10_health_and_death:
  "takeDamage p d a =
     (if isDead p then (False, p)
      else if health p \<le> d
           then (True, p\<lparr>health := 0, isDead := True, deaths := deaths p + 1\<rparr>)
           else (False, p\<lparr>health := health p - d\<rparr>)) \<and>
   (healthOk p \<and> 0 \<le> d \<longrightarrow> healthOk (snd (takeDamage p d a))) \<and>
   length (filter id (fst (takeDamages p ds a))) \<le> 1 \<and>
   deaths (snd (takeDamages p ds a)) =
     deaths p + int (length (filter id (fst (takeDamages p ds a)))) \<and>
   (isDead (players r' ! ti) \<longrightarrow>
      players (snd (applyDamage w r' si wpn ti hs)) = players r') \<and>
   (list_all healthOk (players r) \<longrightarrow>
      list_all healthOk (players (snd (fst (gameTick w r))))) \<and>
   healthOk (snd (spawn w (newPlayer i nm conn) obs))"
proof -
  have 1: "healthOk p \<and> 0 \<le> d \<longrightarrow> healthOk (snd (takeDamage p d a))"
    using shotStable_healthOk by (simp add: shotStable_def)
  show ?thesis
    using 1 takeDamages_count[of p ds a] gameTick_healthOk[of r w]
      applyDamage_dead_target[of r' ti w si wpn hs]
    by (simp add: takeDamage_dead takeDamage_alive spawn_healthOk)
qed

theorem C10_health_and_death_witness:
  "healthOk alice \<and> snd (takeDamage alice 30 2) = alice\<lparr>health := 70\<rparr> \<and>
   healthOk (snd (takeDamage alice 30 2)) \<and>
   fst (takeDamages alice [50, 70, 30] 2) = [False, True, False] \<and>
   isDead (players roomD ! 0) \<and>
   players (snd (applyDamage world0 roomD 0 (WEAPONS ! 0) 0 False)) = players roomD \<and>
   list_all healthOk (players roomA) \<and>
   list_all healthOk (players (snd (fst (gameTick world0 roomA))))"
proof -
  have a: "healthOk alice" "\<not> isDead alice" "health alice = 100"
    by (simp_all add: alice_def newPlayer_def healthOk_def MAX_HEALTH_def)
  have b: "isDead (players roomD ! 0)" by (simp add: roomD_def deadPlayer_def)
  have c: "list_all healthOk (players roomA)" using a by (simp add: roomA_def)
  have d: "fst (takeDamages alice [50, 70, 30] 2) = [False, True, False]"
    using a by (simp add: takeDamage_alive takeDamage_dead Let_def)
  from C10_health_and_death [of alice 30 2 "[50, 70, 30]" roomD 0 world0 0 "WEAPONS ! 0" False
      roomA 1 "[]" 7 "[]"] a b c d
  show ?thesis by (auto simp del: takeDamages.simps)
qed

text \<open>
  C2. The code respawns a player whose timer is due at height 0, not 5: in a room whose
  only player is dead with \<open>respawnTime = 900\<close>, a tick at server time 1000 with the
  random source at 3/4 restores health, clears \<open>isDead\<close> and \<open>respawnTime\<close>, and puts
  the player at \<open>(11.5, 0, 11.5)\<close>.
\<close>

theorem C2_respawn_height:
  "map py (players (snd (fst (gameTick world0 roomR)))) = [0] \<and>
   map px (players (snd (fst (gameTick world0 roomR)))) = [23 / 2] \<and>
   map pz (players (snd (fst (gameTick world0 roomR)))) = [23 / 2] \<and>
   map health (players (snd (fst (gameTick world0 roomR)))) = [100] \<and>
   map isDead (players (snd (fst (gameTick world0 roomR)))) = [False] \<and>
   map respawnTime (players (snd (fst (gameTick world0 roomR)))) = [0]"
  by (simp add: gameTick_def drainAll_def drainPlayer_def roomR_def roomD_def deadPlayer_def
      newPlayer_def world0_def Date_now_def Math_random_def getSpawnPosition_def
      saveHistory_def processRespawns_def mode_tick_def shouldEndGame_def broadcastSnapshot_def
      encodeSnapshot_def SNAPSHOT_BUFFER_SIZE_def HISTORY_CAPACITY_def MAP_SIZE_def
      MAX_HEALTH_def Let_def)

text \<open>
  C4 (as amended). For a direction that is not zero, the ray-sphere test returns a hit at
  \<open>t\<close> exactly when \<open>t\<close> is the smaller root of the quadratic and \<open>0 < t < maxDistance\<close>;
  a hit at exactly \<open>maxDistance\<close> is never returned; and when the origin lies strictly
  inside the sphere the test misses.
\<close>

theorem C4_ray_sphere:
  assumes "0 < normSq direction"
  shows "(raySphereIntersect origin direction center radius maxDistance = Some t \<longleftrightarrow>
            firstCrossing origin direction center radius t \<and> 0 < t \<and> t < maxDistance) \<and>
         raySphereIntersect origin direction center radius maxDistance \<noteq> Some maxDistance \<and>
         (distSq origin center' < radius' * radius' \<longrightarrow>
            raySphereIntersect origin direction center' radius' maxDistance' = None)"
  using raySphere_iff[OF assms, of origin center radius maxDistance t]
    raySphere_iff[OF assms, of origin center radius maxDistance maxDistance]
    raySphere_inside[OF assms, of origin center' radius' maxDistance']
  by auto

theorem C4_ray_sphere_witness:
  "0 < normSq rayD \<and>
   raySphereIntersect rayO rayD sphereC 3 100 = Some 7 \<and>
   firstCrossing rayO rayD sphereC 3 7 \<and>
   raySphereIntersect rayO rayD sphereC 3 7 = None \<and>
   distSq rayO rayO < 1 * 1 \<and>
   raySphereIntersect rayO rayD rayO 1 100 = None"
proof -
  have n: "0 < normSq rayD" by (simp add: normSq_def rayD_def)
  have d: "distSq rayO rayO < 1 * 1" by (simp add: distSq_def)
  from C4_ray_sphere [OF n, of rayO sphereC 3 100 7 rayO 1 100] n d C4_eval_hit C4_eval_edge
  show ?thesis by simp
qed

text \<open>
  The claim as stated fails with the origin inside the sphere: from the centre of a unit
  sphere the least parameter that is not negative at which the ray meets the sphere is 1,
  within the maximal distance 100, and the test returns a miss.
\<close>

theorem C4_inside_sphere_counterexample:
  "normSq rayD = 1 \<and> smallestNonNegRoot rayO rayD rayO 1 1 \<and> (1::real) < 100 \<and>
   raySphereIntersect rayO rayD rayO 1 100 = None"
  using C4_inside_root C4_eval_inside by (simp add: normSq_def rayD_def)

text \<open>
  C7. The history query fails on an empty ring; returns the newest sample when the time
  is at or after the newest timestamp; returns the oldest sample when the timestamps do
  not decrease towards the newest and the time is before the oldest; and otherwise (the
  time lies from the oldest timestamp up to before the newest) interpolates linearly between the first
  adjacent pair, counted from the newest, that brackets the time. In every case the
  result lies on the segment between two stored samples. \<open>saveHistory\<close> makes the
  current position the newest sample.
\<close>

theorem C7_history_query:
  "(historySize e = 0 \<longrightarrow> getPositionAt e t = None) \<and>
   (0 < historySize p \<and> sampleTime p 0 \<le> tnew \<longrightarrow> getPositionAt p tnew = Some (samplePos p 0)) \<and>
   (timesOrdered p \<and> 0 < historySize p \<and> told < sampleTime p (historySize p - 1) \<longrightarrow>
      getPositionAt p told = Some (samplePos p (historySize p - 1))) \<and>
   (0 < historySize p \<and> sampleTime p (historySize p - 1) \<le> tmid \<and> tmid < sampleTime p 0 \<longrightarrow>
      (\<exists>k. Suc k < historySize p \<and> bracketAt p tmid k \<and> (\<forall>j<k. \<not> bracketAt p tmid j) \<and>
           getPositionAt p tmid = Some (between p k tmid))) \<and>
   (0 < historySize p \<longrightarrow>
      (\<exists>j k l. j < historySize p \<and> k < historySize p \<and> 0 \<le> l \<and> l \<le> 1 \<and>
           getPositionAt p t = Some (lerp (samplePos p j) (samplePos p k) l))) \<and>
   (historyHead q < HISTORY_CAPACITY \<and> length (historyTime q) = HISTORY_CAPACITY \<and>
    length (historyX q) = HISTORY_CAPACITY \<and> length (historyY q) = HISTORY_CAPACITY \<and>
    length (historyZ q) = HISTORY_CAPACITY \<longrightarrow>
      sampleTime (saveHistory q ts) 0 = ts \<and>
      samplePos (saveHistory q ts) 0 = \<lparr>v_x = px q, v_y = py q, v_z = pz q\<rparr>)"
proof (intro conjI impI)
  assume "historySize e = 0"
  then show "getPositionAt e t = None" by (simp add: getPositionAt_unfold)
next
  assume "0 < historySize p \<and> sampleTime p 0 \<le> tnew"
  then show "getPositionAt p tnew = Some (samplePos p 0)" by (simp add: getPositionAt_unfold)
next
  assume a: "timesOrdered p \<and> 0 < historySize p \<and> told < sampleTime p (historySize p - 1)"
  then have sz: "0 < historySize p" and ord: "timesOrdered p" by simp_all
  have "sampleTime p (historySize p - 1) \<le> sampleTime p 0"
    using timesOrdered_chain[OF ord, of "historySize p - 1" 0] sz by simp
  with a have lt: "told < sampleTime p 0" by simp
  from query_cases[OF sz lt] show "getPositionAt p told = Some (samplePos p (historySize p - 1))"
  proof
    assume "\<exists>k. Suc k < historySize p \<and> bracketAt p told k \<and> told < sampleTime p k \<and>
              (\<forall>j<k. \<not> bracketAt p told j) \<and> getPositionAt p told = Some (between p k told)"
    then obtain k where k: "Suc k < historySize p" "sampleTime p (Suc k) \<le> told"
      by (auto simp: bracketAt_def)
    have "sampleTime p (historySize p - 1) \<le> sampleTime p (Suc k)"
      using timesOrdered_chain[OF ord, of "historySize p - 1" "Suc k"] k(1) by simp
    with k a show ?thesis by simp
  qed simp
next
  assume a: "0 < historySize p \<and> sampleTime p (historySize p - 1) \<le> tmid \<and> tmid < sampleTime p 0"
  then have sz: "0 < historySize p" and lt: "tmid < sampleTime p 0" by simp_all
  from query_cases[OF sz lt]
  show "\<exists>k. Suc k < historySize p \<and> bracketAt p tmid k \<and> (\<forall>j<k. \<not> bracketAt p tmid j) \<and>
           getPositionAt p tmid = Some (between p k tmid)"
  proof
    assume "(\<forall>i<historySize p. tmid < sampleTime p i) \<and>
             getPositionAt p tmid = Some (samplePos p (historySize p - 1))"
    then have "tmid < sampleTime p (historySize p - 1)" using sz by simp
    with a show ?thesis by simp
  qed blast
next
  assume sz: "0 < historySize p"
  show "\<exists>j k l. j < historySize p \<and> k < historySize p \<and> 0 \<le> l \<and> l \<le> 1 \<and>
           getPositionAt p t = Some (lerp (samplePos p j) (samplePos p k) l)"
  proof (cases "sampleTime p 0 \<le> t")
    case True
    then have "getPositionAt p t = Some (lerp (samplePos p 0) (samplePos p 0) 0)"
      using sz by (simp add: getPositionAt_unfold lerp_same)
    with sz show ?thesis by (intro exI[of _ 0] exI[of _ "0::real"]) simp
  next
    case False
    then have lt: "t < sampleTime p 0" by simp
    from query_cases[OF sz lt] show ?thesis
    proof
      assume "\<exists>k. Suc k < historySize p \<and> bracketAt p t k \<and> t < sampleTime p k \<and>
              (\<forall>j<k. \<not> bracketAt p t j) \<and> getPositionAt p t = Some (between p k t)"
      then obtain k where k: "Suc k < historySize p" "sampleTime p (Suc k) \<le> t"
        "t < sampleTime p k" "getPositionAt p t = Some (between p k t)"
        by (auto simp: bracketAt_def)
      define l where "l = (t - sampleTime p (Suc k)) / (sampleTime p k - sampleTime p (Suc k))"
      have "0 \<le> l" "l \<le> 1" using k(2,3) by (simp_all add: l_def)
      moreover have "getPositionAt p t = Some (lerp (samplePos p (Suc k)) (samplePos p k) l)"
        using k(4) by (simp add: between_def l_def)
      ultimately show ?thesis using k(1)
        by (intro exI[of _ "Suc k"] exI[of _ k] exI[of _ l]) simp
    next
      assume "(\<forall>i<historySize p. t < sampleTime p i) \<and>
             getPositionAt p t = Some (samplePos p (historySize p - 1))"
      then have "getPositionAt p t =
          Some (lerp (samplePos p (historySize p - 1)) (samplePos p (historySize p - 1)) 0)"
        by (simp add: lerp_same)
      with sz show ?thesis
        by (intro exI[of _ "historySize p - 1"] exI[of _ "0::real"]) simp
    qed
  qed
next
  assume "historyHead q < HISTORY_CAPACITY \<and> length (historyTime q) = HISTORY_CAPACITY \<and>
    length (historyX q) = HISTORY_CAPACITY \<and> length (historyY q) = HISTORY_CAPACITY \<and>
    length (historyZ q) = HISTORY_CAPACITY"
  then have "sampleTime (saveHistory q ts) 0 = ts \<and>
      samplePos (saveHistory q ts) 0 = \<lparr>v_x = px q, v_y = py q, v_z = pz q\<rparr>"
    by (intro saveHistory_newest) simp_all
  then show "sampleTime (saveHistory q ts) 0 = ts"
    and "samplePos (saveHistory q ts) 0 = \<lparr>v_x = px q, v_y = py q, v_z = pz q\<rparr>" by simp_all
qed

theorem C7_history_query_witness:
  "historySize (newPlayer 2 [] 8) = 0 \<and> getPositionAt (newPlayer 2 [] 8) 250 = None \<and>
   timesOrdered walker \<and> historySize walker = 3 \<and>
   getPositionAt walker 300 = Some (samplePos walker 0) \<and>
   getPositionAt walker 50 = Some (samplePos walker 2) \<and>
   getPositionAt walker 250 = Some \<lparr>v_x = 3, v_y = 0, v_z = 6\<rparr> \<and>
   bracketAt walker 250 0 \<and> sampleTime (saveHistory walker 400) 0 = 400"
proof -
  have e: "historySize (newPlayer 2 [] 8) = 0" by (simp add: newPlayer_def)
  have s: "historySize walker = 3" "sampleTime walker 0 = 300" "sampleTime walker (Suc 0) = 200"
    "sampleTime walker 2 = 100"
    using walker_samples by (simp_all add: numeral_2_eq_2)
  have b: "bracketAt walker 250 0" using s by (simp add: bracketAt_def)
  have h: "historyHead walker < HISTORY_CAPACITY \<and> length (historyTime walker) = HISTORY_CAPACITY \<and>
    length (historyX walker) = HISTORY_CAPACITY \<and> length (historyY walker) = HISTORY_CAPACITY \<and>
    length (historyZ walker) = HISTORY_CAPACITY"
    by (simp add: walker_def newPlayer_def HISTORY_CAPACITY_def)
  from C7_history_query [where e = "newPlayer 2 [] 8" and t = 250 and p = walker and tnew = 300
      and told = 50 and tmid = 250 and q = walker and ts = 400]
    e s b h walker_ordered walker_query
  show ?thesis by simp
qed

text \<open>
  C3 (as amended). \<open>generateObstacles\<close> is a function of the seed. It returns 44
  obstacles: box \<open>i\<close> for \<open>i = 0 .. 39\<close>, built from draws \<open>5i+1 .. 5i+5\<close> in the order
  width, height, depth, x, z, then the walls north, south, east, west. Draw \<open>k\<close> is
  \<open>s / 0x7FFFFFFF\<close> for the \<open>k\<close>-th state of the generator as the code computes it: the
  product and the sum are rounded to 53 significant bits before the mask is applied. That
  state update is the congruence over the whole numbers as long as
  \<open>s \<times> 1103515245 + 12345 < 2^53\<close>.
\<close>

theorem C3_generateObstacles:
  "generateObstacles seed = spec_obstacles lcg_next seed \<and>
   length (generateObstacles seed) = 44 \<and>
   (s * 1103515245 + 12345 < 2 ^ 53 \<longrightarrow> lcg_next s = spec_lcg_next s)"
  by (simp add: generateObstacles_spec spec_obstacles_length lcg_next_exact)

theorem C3_generateObstacles_witness:
  "(12345::nat) * 1103515245 + 12345 < 2 ^ 53 \<and> lcg_next 12345 = spec_lcg_next 12345 \<and>
   generateObstacles 12345 ! 0 = spec_box lcg_next 12345 0 \<and>
   height (generateObstacles 12345 ! 0) = 2 + 654583808 / 2147483647 * 6"
proof -
  have h: "(12345::nat) * 1103515245 + 12345 < 2 ^ 53" by simp
  from C3_generateObstacles [of 12345 12345] h
  have a: "generateObstacles 12345 = spec_obstacles lcg_next 12345"
    and b: "lcg_next 12345 = spec_lcg_next 12345" by simp_all
  have "height (spec_box lcg_next 12345 0) = 2 + 654583808 / 2147483647 * 6"
    unfolding spec_box0_height lcg_12345_1 lcg_12345_2 by simp
  with a b h show ?thesis by (simp add: spec_obstacles_first)
qed

text \<open>
  The claim as stated fails at the default seed 12345: the second state of the code's
  generator is 654583808, that of the congruence over the whole numbers is 654583775, so
  the first box already has another height.
\<close>

theorem C3_exact_congruence_counterexample: "generateObstacles 12345 \<noteq> spec_obstacles spec_lcg_next 12345"
proof
  assume "generateObstacles 12345 = spec_obstacles spec_lcg_next 12345"
  then have "spec_obstacles lcg_next 12345 ! 0 = spec_obstacles spec_lcg_next 12345 ! 0"
    by (simp add: generateObstacles_spec)
  then have "height (spec_box lcg_next 12345 0) = height (spec_box spec_lcg_next 12345 0)"
    by (simp only: spec_obstacles_first)
  then show False
    unfolding spec_box0_height lcg_12345_1 lcg_12345_2 spec_lcg_12345_1 spec_lcg_12345_2
    by simp
qed

text \<open>
  C5. For one bullet with its direction fixed: when the march over the obstacles, run up
  to the distance \<open>d_p\<close> that the scan over the targets ended with, reports a hit at a
  distance below \<open>d_p\<close>, the bullet leaves the world and the room exactly as they were:
  no HitEvent is appended and no player is changed. Every bullet of \<open>fireBullet\<close> is
  resolved this way, from the shooter's eye along its direction after spread.
\<close>

theorem C5_line_of_sight:
  assumes "scanTargets (players r ! si) origin direction t (range wpn) (players r) 0
             (None, range wpn, False) = (hp, d_p, hs)"
    and "hit (raycast origin direction d_p (obstacles r))"
    and "distance (raycast origin direction d_p (obstacles r)) < d_p"
  shows "resolveBullet w r si wpn origin direction t = (w, r) \<and>
         (\<exists>w' dir. fireBullet w r si wpn t =
            resolveBullet w' r si wpn (getEyePosition (players r ! si)) dir t)"
proof -
  have "resolveBullet w r si wpn origin direction t = (w, r)"
    using assms by (simp add: resolveBullet_def Let_def)
  moreover have "\<exists>w' dir. fireBullet w r si wpn t =
            resolveBullet w' r si wpn (getEyePosition (players r ! si)) dir t"
    by (cases "spread wpn > 0") (auto simp: fireBullet_def Let_def split_beta)
  ultimately show ?thesis by blast
qed

theorem C5_line_of_sight_witness:
  "scanTargets (players roomS3 ! 0) eye rayD 1000 (range rifle) (players roomS3) 0
     (None, range rifle, False) = (Some 1, 97 / 10, True) \<and>
   hit (raycast eye rayD (97 / 10) (obstacles roomS3)) \<and>
   distance (raycast eye rayD (97 / 10) (obstacles roomS3)) = 4 \<and>
   resolveBullet world0 roomS3 0 rifle eye rayD 1000 = (world0, roomS3)"
proof -
  have d: "distance (raycast eye rayD (97 / 10) (obstacles roomS3)) < 97 / 10"
    using S3_raycast by simp
  from C5_line_of_sight [OF S3_scan _ d, of world0] S3_scan S3_raycast
  show ?thesis by simp
qed

text \<open>
  C8 (as amended). A message that is not binary, is empty or has an unknown type byte is
  dropped: nothing is sent, the socket stays open, no room changes. An INPUT from a socket
  that has not joined is dropped likewise. An INPUT of fewer than 23 bytes from a socket
  that has joined leaves the callback with \<open>RangeError\<close>; one of 23 bytes or more
  never does. A JOIN is never dropped: when a room has space the player is added under the
  name read, and a name length beyond the payload reads the name up to the end of the
  buffer.
\<close>

theorem C8_malformed_messages:
  "(\<not> isBinary \<or> getMessageType msg \<notin> {Some JOIN, Some INPUT, Some PING} \<longrightarrow>
      message cfg f32 f64 w rooms conn d msg isBinary = Inr (w, rooms, d, [])) \<and>
   (getMessageType msg1 = Some INPUT \<and> (playerId d1 = 0 \<or> roomId d1 = NoRoom) \<longrightarrow>
      message cfg f32 f64 w rooms conn d1 msg1 True = Inr (w, rooms, d1, [])) \<and>
   (getMessageType msg2 = Some INPUT \<and> playerId d2 \<noteq> 0 \<and> roomId d2 \<noteq> NoRoom \<and>
    length msg2 < 23 \<longrightarrow>
      message cfg f32 f64 w rooms conn d2 msg2 True = Inl RangeError) \<and>
   (getMessageType msg3 = Some INPUT \<and> 23 \<le> length msg3 \<longrightarrow>
      (\<exists>rooms'. message cfg f32 f64 w rooms conn d msg3 True = Inr (w, rooms', d, []))) \<and>
   (getMessageType msg4 = Some JOIN \<and> find_index (\<lambda>r. \<not> isFull r) rooms = Some k \<longrightarrow>
      (\<exists>w' r'. message cfg f32 f64 w rooms conn d msg4 True =
           Inr (w', rooms[k := r'],
                \<lparr>playerId = nextPlayerId (rooms ! k), roomId = rid (rooms ! k)\<rparr>,
                [Send (encodeWelcome (nextPlayerId (rooms ! k)) (TICK_RATE cfg) (MAP_SEED cfg))]) \<and>
           map name (players r') = map name (players (rooms ! k)) @ [decodeJoinRequest msg4])) \<and>
   (2 \<le> length msg4 \<and> length msg4 - 2 \<le> unat (msg4 ! 1) \<longrightarrow>
      decodeJoinRequest msg4 = drop 2 msg4)"
proof (intro conjI impI)
  assume "\<not> isBinary \<or> getMessageType msg \<notin> {Some JOIN, Some INPUT, Some PING}"
  then show "message cfg f32 f64 w rooms conn d msg isBinary = Inr (w, rooms, d, [])"
    by (rule message_dropped)
next
  assume "getMessageType msg1 = Some INPUT \<and> (playerId d1 = 0 \<or> roomId d1 = NoRoom)"
  then show "message cfg f32 f64 w rooms conn d1 msg1 True = Inr (w, rooms, d1, [])"
    by (intro message_input_unadmitted) simp_all
next
  assume "getMessageType msg2 = Some INPUT \<and> playerId d2 \<noteq> 0 \<and> roomId d2 \<noteq> NoRoom \<and>
    length msg2 < 23"
  then show "message cfg f32 f64 w rooms conn d2 msg2 True = Inl RangeError"
    by (intro message_input_truncated) simp_all
next
  assume "getMessageType msg3 = Some INPUT \<and> 23 \<le> length msg3"
  then show "\<exists>rooms'. message cfg f32 f64 w rooms conn d msg3 True = Inr (w, rooms', d, [])"
    by (intro message_input_complete) simp_all
next
  assume a: "getMessageType msg4 = Some JOIN \<and> find_index (\<lambda>r. \<not> isFull r) rooms = Some k"
  then have "\<not> isFull (rooms ! k)" using find_index_holds[of "\<lambda>r. \<not> isFull r" rooms k] by simp
  with a show "\<exists>w' r'. message cfg f32 f64 w rooms conn d msg4 True =
           Inr (w', rooms[k := r'],
                \<lparr>playerId = nextPlayerId (rooms ! k), roomId = rid (rooms ! k)\<rparr>,
                [Send (encodeWelcome (nextPlayerId (rooms ! k)) (TICK_RATE cfg) (MAP_SEED cfg))]) \<and>
           map name (players r') = map name (players (rooms ! k)) @ [decodeJoinRequest msg4]"
    by (intro message_join_admitted) simp_all
next
  assume "2 \<le> length msg4 \<and> length msg4 - 2 \<le> unat (msg4 ! 1)"
  then show "decodeJoinRequest msg4 = drop 2 msg4"
    by (intro decodeJoinRequest_overlong) simp_all
qed

theorem C8_malformed_messages_witness:
  "message cfg0 noFloat noFloat world0 [roomA] 7 sockA [9, 1] True
     = Inr (world0, [roomA], sockA, []) \<and>
   message cfg0 noFloat noFloat world0 [roomA] 7 sockNew [2, 1, 0] True
     = Inr (world0, [roomA], sockNew, []) \<and>
   message cfg0 noFloat noFloat world0 [roomA] 7 sockA [2, 1, 0] True = Inl RangeError \<and>
   (\<exists>rooms'. message cfg0 noFloat noFloat world0 [roomA] 7 sockA (2 # replicate 22 0) True
       = Inr (world0, rooms', sockA, [])) \<and>
   (\<exists>w' r'. message cfg0 noFloat noFloat world0 [roomA] 7 sockA [1, 200, 65, 66] True =
       Inr (w', [r'], \<lparr>playerId = nextPlayerId roomA, roomId = rid roomA\<rparr>,
            [Send (encodeWelcome (nextPlayerId roomA) (TICK_RATE cfg0) (MAP_SEED cfg0))]) \<and>
       map name (players r') = map name (players roomA) @ [[65, 66]]) \<and>
   decodeJoinRequest [1, 200, 65, 66] = [65, 66]"
proof -
  have u: "getMessageType [9, 1] \<notin> {Some JOIN, Some INPUT, Some PING}"
    by (simp add: getMessageType_def JOIN_def INPUT_def PING_def)
  have i: "getMessageType [2, 1, 0] = Some INPUT" by (simp add: getMessageType_def INPUT_def)
  have i3: "getMessageType (2 # replicate 22 0) = Some INPUT \<and> 23 \<le> length ((2::8 word) # replicate 22 0)"
    by (simp add: getMessageType_def INPUT_def)
  have j: "getMessageType [1, 200, 65, 66] = Some JOIN" by (simp add: getMessageType_def JOIN_def)
  have f: "find_index (\<lambda>r. \<not> isFull r) [roomA] = Some 0"
    by (simp add: isFull_def roomA_def roomD_def)
  have s: "playerId sockNew = 0" "playerId sockA \<noteq> 0" "roomId sockA \<noteq> NoRoom"
    by (simp_all add: sockNew_def sockA_def)
  have l: "2 \<le> length [1, 200, 65, 66 :: 8 word] \<and>
      length [1, 200, 65, 66 :: 8 word] - 2 \<le> unat ([1, 200, 65, 66 :: 8 word] ! 1)"
    by simp
  note t = C8_malformed_messages [where isBinary = True and msg = "[9, 1]" and cfg = cfg0
      and ?f32.0 = noFloat and ?f64.0 = noFloat and w = world0 and rooms = "[roomA]" and conn = 7
      and d = sockA and ?msg1.0 = "[2, 1, 0]" and ?d1.0 = sockNew and ?msg2.0 = "[2, 1, 0]"
      and ?d2.0 = sockA and ?msg3.0 = "2 # replicate 22 0" and ?msg4.0 = "[1, 200, 65, 66]"
      and k = 0]
  from t u have c1: "message cfg0 noFloat noFloat world0 [roomA] 7 sockA [9, 1] True
          = Inr (world0, [roomA], sockA, [])" by blast
  from t i s have c2: "message cfg0 noFloat noFloat world0 [roomA] 7 sockNew [2, 1, 0] True
          = Inr (world0, [roomA], sockNew, [])" by blast
  from t i s have c3: "message cfg0 noFloat noFloat world0 [roomA] 7 sockA [2, 1, 0] True
          = Inl RangeError" by simp
  from t i3 have c4: "\<exists>rooms'. message cfg0 noFloat noFloat world0 [roomA] 7 sockA
          (2 # replicate 22 0) True = Inr (world0, rooms', sockA, [])" by blast
  from t l have d: "decodeJoinRequest [1, 200, 65, 66] = drop 2 [1, 200, 65, 66]" by blast
  then have c6: "decodeJoinRequest [1, 200, 65, 66] = [65, 66]" by simp
  from t j f have "\<exists>w' r'. message cfg0 noFloat noFloat world0 [roomA] 7 sockA [1, 200, 65, 66] True =
       Inr (w', [roomA][0 := r'], \<lparr>playerId = nextPlayerId ([roomA] ! 0), roomId = rid ([roomA] ! 0)\<rparr>,
            [Send (encodeWelcome (nextPlayerId ([roomA] ! 0)) (TICK_RATE cfg0) (MAP_SEED cfg0))]) \<and>
       map name (players r') = map name (players ([roomA] ! 0)) @ [decodeJoinRequest [1, 200, 65, 66]]"
    by blast
  then have c5: "\<exists>w' r'. message cfg0 noFloat noFloat world0 [roomA] 7 sockA [1, 200, 65, 66] True =
       Inr (w', [r'], \<lparr>playerId = nextPlayerId roomA, roomId = rid roomA\<rparr>,
            [Send (encodeWelcome (nextPlayerId roomA) (TICK_RATE cfg0) (MAP_SEED cfg0))]) \<and>
       map name (players r') = map name (players roomA) @ [[65, 66]]"
    unfolding c6 by simp
  from c1 c2 c3 c4 c5 c6 show ?thesis by blast
qed

text \<open>
  The claim as stated fails on a truncated INPUT, which throws, and on a JOIN whose name
  length exceeds the payload, which admits a second player to the lobby under the name
  read up to the end of the buffer and answers with WELCOME.
\<close>

theorem C8_truncated_input_counterexample:
  "message cfg0 noFloat noFloat world0 [roomA] 7 sockA [2, 1, 0] True = Inl RangeError \<and>
   outcome (message cfg0 noFloat noFloat world0 [roomA] 9 sockNew [1, 200, 65, 66] True) =
     Inr ([[[], [65, 66]]], \<lparr>playerId = 2, roomId = Lobby\<rparr>,
          [Send [1, 2, 0, 60, 57, 48, 0, 0]])"
  using C8_eval_truncated C8_eval_join by simp

end
